theory Spec2Isabelle
  imports Main
begin

section \<open>Host values\<close>

text \<open>
  The interpreter core (\<^verbatim>\<open>vm/src/Closure.js\<close>) runs on JavaScript values. A number is
  an IEEE double; the only thing the handlers below ask of a number besides arithmetic
  (which stays a parameter of the host) is its textual form \<^verbatim>\<open>'' + x\<close>, so a finite number
  is carried as the decimal the host prints it from: \<open>Finite neg s n\<close> is the number
  \<open>\<plusminus> s \<times> 10\<^sup>n\<^sup>-\<^sup>k\<close> where \<open>k\<close> is the count of decimal digits of \<open>s\<close>
  (\<open>s = 0\<close> is zero, of either sign).
\<close>

datatype number = NaN | Infinity bool | Finite bool nat int

datatype upref = LocalCell nat | ParentUpvalue int

datatype func = HostFn nat | LuaFn int "upref list"

datatype val = Undefined | Bool bool | Num number | Str string | Tbl nat | Fn func

subsection \<open>Number to string\<close>

definition digits :: "char list" where
  "digits = ''0123456789''"

definition digit_char :: "nat \<Rightarrow> char" where
  "digit_char d = digits ! d"

fun show_nat :: "nat \<Rightarrow> string" where
  "show_nat n = (if n < 10 then [digit_char n] else show_nat (n div 10) @ [digit_char (n mod 10)])"

declare show_nat.simps [simp del]

text \<open>
  The host's number-to-string conversion for a finite non-zero number with decimal
  digits \<open>ds\<close> (\<open>k\<close> of them) and decimal exponent \<open>n\<close>: plain digits when
  \<open>k \<le> n \<le> 21\<close>, a decimal point inside the digits when \<open>0 < n \<le> 21\<close>, leading
  \<^verbatim>\<open>0.\<close> when \<open>-6 < n \<le> 0\<close>, exponent notation otherwise.
\<close>

definition exponent_text :: "int \<Rightarrow> string" where
  "exponent_text e = ''e'' @ (if e < 0 then ''-'' else ''+'') @ show_nat (nat \<bar>e\<bar>)"

definition digits_to_string :: "string \<Rightarrow> int \<Rightarrow> string" where
  "digits_to_string ds n =
     (let k = int (length ds) in
      if k \<le> n \<and> n \<le> 21 then ds @ replicate (nat (n - k)) CHR ''0''
      else if 0 < n \<and> n \<le> 21 then take (nat n) ds @ ''.'' @ drop (nat n) ds
      else if - 6 < n \<and> n \<le> 0 then ''0.'' @ replicate (nat (- n)) CHR ''0'' @ ds
      else if k = 1 then ds @ exponent_text (n - 1)
      else take 1 ds @ ''.'' @ drop 1 ds @ exponent_text (n - 1))"

fun number_to_string :: "number \<Rightarrow> string" where
  "number_to_string NaN = ''NaN''"
| "number_to_string (Infinity neg) = (if neg then ''-Infinity'' else ''Infinity'')"
| "number_to_string (Finite neg s n) =
     (if s = 0 then ''0''
      else (if neg then ''-'' else '''') @ digits_to_string (show_nat s) n)"

subsection \<open>Regular expressions\<close>

text \<open>
  \<^verbatim>\<open>str.match (re)\<close> with a pattern anchored by \<^verbatim>\<open>^\<close> and \<^verbatim>\<open>$\<close> is truthy exactly when the
  whole string is in the pattern's language; \<open>matches\<close> decides that by derivatives.
\<close>

datatype regex = Never | Empty | Class "char list" | Alt regex regex | Seq regex regex | Star regex

fun nullable :: "regex \<Rightarrow> bool" where
  "nullable Never = False"
| "nullable Empty = True"
| "nullable (Class cs) = False"
| "nullable (Alt r1 r2) = (nullable r1 \<or> nullable r2)"
| "nullable (Seq r1 r2) = (nullable r1 \<and> nullable r2)"
| "nullable (Star r) = True"

fun deriv :: "char \<Rightarrow> regex \<Rightarrow> regex" where
  "deriv c Never = Never"
| "deriv c Empty = Never"
| "deriv c (Class cs) = (if c \<in> set cs then Empty else Never)"
| "deriv c (Alt r1 r2) = Alt (deriv c r1) (deriv c r2)"
| "deriv c (Seq r1 r2) =
     (if nullable r1 then Alt (Seq (deriv c r1) r2) (deriv c r2) else Seq (deriv c r1) r2)"
| "deriv c (Star r) = Seq (deriv c r) (Star r)"

fun matches :: "regex \<Rightarrow> string \<Rightarrow> bool" where
  "matches r [] = nullable r"
| "matches r (c # cs) = matches (deriv c r) cs"

definition Opt :: "regex \<Rightarrow> regex" where
  "Opt r = Alt r Empty"

definition Plus :: "regex \<Rightarrow> regex" where
  "Plus r = Seq r (Star r)"

definition Digit :: regex where
  "Digit = Class digits"

text \<open>\<^verbatim>\<open>/^[-+]?[0-9]*\.?([0-9]+([eE][-+]?[0-9]+)?)?$/\<close>\<close>

definition FLOATING_POINT_PATTERN :: regex where
  "FLOATING_POINT_PATTERN =
     Seq (Opt (Class ''-+''))
       (Seq (Star Digit)
         (Seq (Opt (Class ''.''))
           (Opt (Seq (Plus Digit)
                  (Opt (Seq (Class ''eE'') (Seq (Opt (Class ''-+'')) (Plus Digit))))))))"

definition Exponent :: regex where
  "Exponent = Seq (Class ''eE'') (Seq (Opt (Class ''-+'')) (Plus Digit))"

definition Fraction :: regex where
  "Fraction = Seq (Plus Digit) (Opt Exponent)"

text \<open>The language of a pattern, as a relation; used to reason about \<open>matches\<close>.\<close>

inductive in_lang :: "regex \<Rightarrow> string \<Rightarrow> bool" where
  in_Empty: "in_lang Empty []"
| in_Class: "c \<in> set cs \<Longrightarrow> in_lang (Class cs) [c]"
| in_AltL: "in_lang r1 s \<Longrightarrow> in_lang (Alt r1 r2) s"
| in_AltR: "in_lang r2 s \<Longrightarrow> in_lang (Alt r1 r2) s"
| in_Seq: "in_lang r1 s1 \<Longrightarrow> in_lang r2 s2 \<Longrightarrow> in_lang (Seq r1 r2) (s1 @ s2)"
| in_StarNil: "in_lang (Star r) []"
| in_StarCons: "in_lang r s1 \<Longrightarrow> in_lang (Star r) s2 \<Longrightarrow> in_lang (Star r) (s1 @ s2)"

subsection \<open>Coercions of the host language\<close>

definition is_zero :: "number \<Rightarrow> bool" where
  "is_zero x = (case x of Finite neg s n \<Rightarrow> s = 0 | _ \<Rightarrow> False)"

text \<open>\<^verbatim>\<open>!v\<close>: the values the host language counts as false.\<close>

fun falsy :: "val \<Rightarrow> bool" where
  "falsy Undefined = True"
| "falsy (Bool b) = (\<not> b)"
| "falsy (Num x) = (x = NaN \<or> is_zero x)"
| "falsy (Str s) = (s = [])"
| "falsy (Tbl t) = False"
| "falsy (Fn f) = False"

text \<open>Whether a number equals the small non-negative integer of an instruction operand.\<close>

fun number_is_nat :: "number \<Rightarrow> nat \<Rightarrow> bool" where
  "number_is_nat NaN a = False"
| "number_is_nat (Infinity neg) a = False"
| "number_is_nat (Finite neg s n) a =
     (if s = 0 then a = 0
      else \<not> neg \<and>
        (let k = int (length (show_nat s)) in
         if k \<le> n then s * 10 ^ nat (n - k) = a else s = a * 10 ^ nat (k - n)))"

fun strip_zeros :: "nat \<Rightarrow> nat" where
  "strip_zeros n = (if n \<noteq> 0 \<and> n mod 10 = 0 then strip_zeros (n div 10) else n)"

declare strip_zeros.simps [simp del]

definition number_of_nat :: "nat \<Rightarrow> number" where
  "number_of_nat n =
     (if n = 0 then Finite False 0 0 else Finite False (strip_zeros n) (int (length (show_nat n))))"

text \<open>\<^verbatim>\<open>str.split ('\n')\<close>\<close>

fun split_lines :: "string \<Rightarrow> string list" where
  "split_lines [] = [[]]"
| "split_lines (c # cs) =
     (if c = CHR 0x0A then [] # split_lines cs
      else (case split_lines cs of [] \<Rightarrow> [[c]] | l # ls \<Rightarrow> (c # l) # ls))"

section \<open>The world outside the activation\<close>

datatype status = Running | Suspending | Suspended | Resuming | NoStatus

datatype resumable = ThisClosure | OtherClosure nat | CoroutineObj nat

text \<open>
  Modelled from the spec: the error class \<^verbatim>\<open>luajs.Error\<close> is not among the sources. The
  spec gives it as ``a language-error kind carrying a message, a source-level stack, and a
  host stack trace''; the source stack \<^verbatim>\<open>luaStack\<close> is absent until a frame is pushed.
\<close>

record error =
  message :: string
  stack :: "string option"
  luaStack :: "string list option"

text \<open>
  What a \<^verbatim>\<open>throw\<close> carries and a \<^verbatim>\<open>catch\<close> receives: an instance of \<^verbatim>\<open>luajs.Error\<close>; any other
  value that is not \<^verbatim>\<open>null\<close> or \<^verbatim>\<open>undefined\<close> (a host exception), given by its properties
  \<^verbatim>\<open>message\<close> and \<^verbatim>\<open>stack\<close>, each \<^verbatim>\<open>undefined\<close> when absent; or \<^verbatim>\<open>null\<close> or \<^verbatim>\<open>undefined\<close>, which have
  no properties to read.
\<close>

datatype thrown = LuaError error | HostException val val | Nullish

text \<open>
  Modelled from the spec: the table class \<^verbatim>\<open>luajs.Table\<close> is not among the sources. The
  spec gives it member get and set and an optional metatable, itself a table. The
  handlers below call \<^verbatim>\<open>getMember\<close> and \<^verbatim>\<open>setMember\<close> with string keys only, so members are
  keyed by strings; \<open>elements\<close> is the array handed to the constructor.
\<close>

record table =
  elements :: "val list"
  members :: "string \<Rightarrow> val option"
  metatable :: "nat option"

definition Table :: "val list \<Rightarrow> table" where
  "Table arr = \<lparr>elements = arr, members = (\<lambda>k. None), metatable = None\<rparr>"

definition getMember :: "table \<Rightarrow> string \<Rightarrow> val" where
  "getMember t k = (case members t k of None \<Rightarrow> Undefined | Some v \<Rightarrow> v)"

definition setMember :: "table \<Rightarrow> string \<Rightarrow> val \<Rightarrow> table" where
  "setMember t k v = t\<lparr>members := (members t)(k := Some v)\<rparr>"

record coroutine =
  co_status :: status
  co_resumeStack :: "resumable list"
  co_yieldVars :: "val list option"
  co_func_is_this :: bool

text \<open>
  The process-wide state the core reads and writes: the debugger's status and resume
  stack (\<^verbatim>\<open>luajs.debug\<close>), the running coroutine (\<^verbatim>\<open>luajs.Coroutine._running\<close>), the heap of
  tables, and whatever else the host keeps (\<open>ext\<close>).
\<close>

record 'x world =
  debug_status :: status
  debug_resumeStack :: "resumable list"
  coroutine_running :: "coroutine option"
  tables :: "nat \<Rightarrow> table"
  next_table :: nat
  ext :: 'x

datatype call_result = Throws thrown | ReturnsArray "val list" | ReturnsOther val

datatype arith_op = OpAdd | OpSub | OpMul | OpDiv | OpMod | OpPow

text \<open>
  What the core takes from its host and collaborators, as parameters: textual form and
  conversions of objects, floating-point arithmetic and parsing, the relational
  operator, calls of function values (\<^verbatim>\<open>f.apply ([b, c])\<close> for a metamethod,
  \<^verbatim>\<open>f.apply ({}, args)\<close> for a callee), resumption of another suspended activation or
  coroutine, and the handlers of the opcodes this development does not model. None of
  the latter reads or writes the captured-locals list, the saved arguments or the
  terminated flag, and none returns a value; \<open>other_op\<close> therefore transforms the
  register file, the program counter and the world only, and may throw. A callee
  changes the world; what it may do to this activation through a cell it holds (write
  the captured register or the closed value) is left out, as is a callee that enters
  this same activation again. Neither would touch a cell's open flag or the
  captured-locals list.
\<close>

record 'x host =
  object_to_string :: "val \<Rightarrow> string"
  parseFloat :: "val \<Rightarrow> number"
  float_op :: "arith_op \<Rightarrow> number \<Rightarrow> number \<Rightarrow> number"
  less_than :: "val \<Rightarrow> val \<Rightarrow> bool"
  string_to_number :: "string \<Rightarrow> number"
  object_loose_eq :: "val \<Rightarrow> nat \<Rightarrow> bool"
  property_0 :: "val \<Rightarrow> val"
  table_has_apply :: "nat \<Rightarrow> bool"
  apply_meta :: "val \<Rightarrow> val list \<Rightarrow> 'x world \<Rightarrow> call_result \<times> 'x world"
  apply_fn :: "val \<Rightarrow> val list \<Rightarrow> 'x world \<Rightarrow> call_result \<times> 'x world"
  resume_method :: "resumable \<Rightarrow> 'x world \<Rightarrow> call_result \<times> 'x world"
  run_method :: "resumable \<Rightarrow> 'x world \<Rightarrow> call_result \<times> 'x world"
  coroutine_remove :: "'x world \<Rightarrow> 'x world"
  new_error_stack :: "string option"
  type_error_message :: string
  other_op :: "nat \<Rightarrow> nat \<Rightarrow> int \<Rightarrow> int \<Rightarrow> val option list \<times> int \<times> 'x world
                 \<Rightarrow> thrown option \<times> val option list \<times> int \<times> 'x world"

text \<open>
  \<^verbatim>\<open>new luajs.Error (m)\<close>, the host's \<^verbatim>\<open>new Error (m)\<close>, and the \<^verbatim>\<open>TypeError\<close> the host raises on
  a property of \<^verbatim>\<open>undefined\<close> or \<^verbatim>\<open>null\<close> and on a call of what is no function.
\<close>

definition lua_error :: "'x host \<Rightarrow> string \<Rightarrow> thrown" where
  "lua_error h m = LuaError \<lparr>message = m, stack = new_error_stack h, luaStack = None\<rparr>"

definition host_error :: "'x host \<Rightarrow> string \<Rightarrow> thrown" where
  "host_error h m =
     HostException (Str m) (case new_error_stack h of None \<Rightarrow> Undefined | Some t \<Rightarrow> Str t)"

definition type_error :: "'x host \<Rightarrow> thrown" where
  "type_error h = host_error h (type_error_message h)"

text \<open>\<^verbatim>\<open>'' + v\<close>\<close>

fun to_string :: "'x host \<Rightarrow> val \<Rightarrow> string" where
  "to_string h Undefined = ''undefined''"
| "to_string h (Bool b) = (if b then ''true'' else ''false'')"
| "to_string h (Num x) = number_to_string x"
| "to_string h (Str s) = s"
| "to_string h (Tbl t) = object_to_string h (Tbl t)"
| "to_string h (Fn f) = object_to_string h (Fn f)"

text \<open>\<^verbatim>\<open>result != a\<close> for an operand \<open>a\<close>: the loose inequality of a value and a number.\<close>

fun loose_neq :: "'x host \<Rightarrow> val \<Rightarrow> nat \<Rightarrow> bool" where
  "loose_neq h Undefined a = True"
| "loose_neq h (Bool r) a = ((if r then 1 else 0) \<noteq> a)"
| "loose_neq h (Num x) a = (\<not> number_is_nat x a)"
| "loose_neq h (Str s) a = (\<not> number_is_nat (string_to_number h s) a)"
| "loose_neq h (Tbl t) a = (\<not> object_loose_eq h (Tbl t) a)"
| "loose_neq h (Fn f) a = (\<not> object_loose_eq h (Fn f) a)"

text \<open>\<^verbatim>\<open>f.apply ([b, c])[0]\<close>: the first element of what a metamethod returned.\<close>

fun first_result :: "'x host \<Rightarrow> call_result \<Rightarrow> thrown + val" where
  "first_result h (Throws e) = Inl e"
| "first_result h (ReturnsArray vs) = Inr (case vs of [] \<Rightarrow> Undefined | v # _ \<Rightarrow> v)"
| "first_result h (ReturnsOther Undefined) = Inl (type_error h)"
| "first_result h (ReturnsOther (Str s)) = Inr (case s of [] \<Rightarrow> Undefined | c # _ \<Rightarrow> Str [c])"
| "first_result h (ReturnsOther (Bool b)) = Inr Undefined"
| "first_result h (ReturnsOther (Num x)) = Inr Undefined"
| "first_result h (ReturnsOther (Tbl t)) = Inr (property_0 h (Tbl t))"
| "first_result h (ReturnsOther (Fn f)) = Inr (property_0 h (Fn f))"

section \<open>The activation\<close>

text \<open>
  An instruction is \<^verbatim>\<open>{op, A, B, C}\<close>; \<open>B\<close> and \<open>C\<close> are integers because some opcodes read
  them as a signed offset. The prototype is \<^verbatim>\<open>this._data\<close> with its constants (\<open>None\<close> is the
  \<^verbatim>\<open>null\<close> sentinel), nested prototypes and line positions.
\<close>

record instruction =
  instr_op :: nat
  instr_A :: nat
  instr_B :: int
  instr_C :: int

record nested =
  upvalues :: "string list"

record prototype =
  instructions :: "instruction list"
  constants :: "val option list"
  nested_functions :: "nested list"
  linePositions :: "number list"
  paramCount :: nat
  is_vararg :: nat
  sourceName :: "string option"

text \<open>
  An upvalue cell made by \<^verbatim>\<open>CLOSURE\<close> for a local of this activation: open while it stands
  for register \<open>c_register\<close>, closed once it holds \<open>c_value\<close>. Cells are shared objects,
  so they live in a store (\<open>cells\<close>) and the captured-locals list holds their addresses.
  The caller's argument arrays are shared objects too (\<open>arrays\<close>). The register file is a
  sparse array: \<open>None\<close> is a hole.
\<close>

record cell =
  c_open :: bool
  c_value :: val
  c_register :: int
  c_name :: "string option"

record 'x state =
  data :: prototype
  parent_upvalues :: "string option list"
  register :: "val option list"
  pc :: int
  localsUsedAsUpvalues :: "(int \<times> nat) list"
  params :: "val list"
  terminated :: bool
  cells :: "nat \<Rightarrow> cell"
  next_cell :: nat
  arrays :: "nat \<Rightarrow> val list"
  next_array :: nat
  world :: "'x world"

datatype 'x outcome = Threw thrown "'x state" | Done "val list option" "'x state"

subsection \<open>Register file\<close>

definition reg_get :: "val option list \<Rightarrow> int \<Rightarrow> val" where
  "reg_get R i =
     (if 0 \<le> i \<and> nat i < length R then (case R ! nat i of None \<Rightarrow> Undefined | Some v \<Rightarrow> v)
      else Undefined)"

definition reg_set :: "val option list \<Rightarrow> nat \<Rightarrow> val \<Rightarrow> val option list" where
  "reg_set R i v =
     (if i < length R then R[i := Some v] else R @ replicate (i - length R) None @ [Some v])"

definition reg_delete :: "val option list \<Rightarrow> int \<Rightarrow> val option list" where
  "reg_delete R i = (if 0 \<le> i \<and> nat i < length R then R[nat i := None] else R)"

text \<open>\<^verbatim>\<open>for (i = 0; i < k; i++) this._register[a + i] = f (i)\<close>\<close>

definition write_loop :: "val option list \<Rightarrow> nat \<Rightarrow> (nat \<Rightarrow> val) \<Rightarrow> nat \<Rightarrow> val option list" where
  "write_loop R a f k = foldl (\<lambda>R i. reg_set R (a + i) (f i)) R [0 ..< k]"

definition nth_or_undefined :: "val list \<Rightarrow> int \<Rightarrow> val" where
  "nth_or_undefined xs i = (if 0 \<le> i \<and> nat i < length xs then xs ! nat i else Undefined)"

definition getConstant :: "'x state \<Rightarrow> int \<Rightarrow> val" where
  "getConstant s index =
     (let cs = constants (data s) in
      if 0 \<le> index \<and> nat index < length cs
      then (case cs ! nat index of None \<Rightarrow> Undefined | Some v \<Rightarrow> v)
      else Undefined)"

definition RK :: "'x state \<Rightarrow> int \<Rightarrow> val" where
  "RK s x = (if x \<ge> 256 then getConstant s (x - 256) else reg_get (register s) x)"

definition set_register :: "'x state \<Rightarrow> nat \<Rightarrow> val \<Rightarrow> 'x state" where
  "set_register s a v = s\<lparr>register := reg_set (register s) a v\<rparr>"

definition skip_if :: "bool \<Rightarrow> 'x state \<Rightarrow> 'x outcome" where
  "skip_if c s = Done None (if c then s\<lparr>pc := pc s + 1\<rparr> else s)"

subsection \<open>Loads, moves and jumps\<close>

definition move :: "nat \<Rightarrow> int \<Rightarrow> 'x state \<Rightarrow> 'x outcome" where
  "move a b s = Done None (set_register s a (reg_get (register s) b))"

definition loadk :: "nat \<Rightarrow> int \<Rightarrow> 'x state \<Rightarrow> 'x outcome" where
  "loadk a bx s = Done None (set_register s a (getConstant s bx))"

definition loadbool :: "nat \<Rightarrow> int \<Rightarrow> int \<Rightarrow> 'x state \<Rightarrow> 'x outcome" where
  "loadbool a b c s = skip_if (c \<noteq> 0) (set_register s a (Bool (b \<noteq> 0)))"

definition loadnil :: "nat \<Rightarrow> int \<Rightarrow> 'x state \<Rightarrow> 'x outcome" where
  "loadnil a b s =
     Done None (s\<lparr>register := foldl (\<lambda>R i. reg_set R i Undefined) (register s) [a ..< nat (b + 1)]\<rparr>)"

definition jmp :: "nat \<Rightarrow> int \<Rightarrow> 'x state \<Rightarrow> 'x outcome" where
  "jmp a sbx s = Done None (s\<lparr>pc := pc s + sbx\<rparr>)"

subsection \<open>Arithmetic\<close>

text \<open>
  \<^verbatim>\<open>b instanceof luajs.Table && (mt = b.__luajs.metatable) && (f = mt.getMember (name))\<close>:
  the metamethod, when the left operand is a table whose metatable has a truthy member
  of that name.
\<close>

definition metamethod :: "'x world \<Rightarrow> val \<Rightarrow> string \<Rightarrow> val option" where
  "metamethod w v name =
     (case v of
        Tbl t \<Rightarrow>
          (case metatable (tables w t) of
             None \<Rightarrow> None
           | Some mt \<Rightarrow>
               (let f = getMember (tables w mt) name in if falsy f then None else Some f))
      | _ \<Rightarrow> None)"

text \<open>
  The six binary handlers \<^verbatim>\<open>add\<close>, \<^verbatim>\<open>sub\<close>, \<^verbatim>\<open>mul\<close>, \<^verbatim>\<open>div\<close>, \<^verbatim>\<open>mod\<close>, \<^verbatim>\<open>pow\<close> are the same text
  up to the metamethod's name and the operator.
\<close>

definition arith :: "'x host \<Rightarrow> string \<Rightarrow> arith_op \<Rightarrow> nat \<Rightarrow> int \<Rightarrow> int \<Rightarrow> 'x state \<Rightarrow> 'x outcome" where
  "arith h name opr a b c s =
     (let bv = RK s b; cv = RK s c in
      case metamethod (world s) bv name of
        Some f \<Rightarrow>
          (case apply_meta h f [bv, cv] (world s) of
             (r, w') \<Rightarrow>
               (case first_result h r of
                  Inl e \<Rightarrow> Threw e (s\<lparr>world := w'\<rparr>)
                | Inr v \<Rightarrow> Done None (set_register (s\<lparr>world := w'\<rparr>) a v)))
      | None \<Rightarrow>
          if \<not> matches FLOATING_POINT_PATTERN (to_string h bv)
             \<or> \<not> matches FLOATING_POINT_PATTERN (to_string h cv)
          then Threw (lua_error h ''attempt to perform arithmetic on a non-numeric value'') s
          else Done None
                 (set_register s a (Num (float_op h opr (parseFloat h bv) (parseFloat h cv)))))"

definition add :: "'x host \<Rightarrow> nat \<Rightarrow> int \<Rightarrow> int \<Rightarrow> 'x state \<Rightarrow> 'x outcome" where
  "add h = arith h ''__add'' OpAdd"

definition sub :: "'x host \<Rightarrow> nat \<Rightarrow> int \<Rightarrow> int \<Rightarrow> 'x state \<Rightarrow> 'x outcome" where
  "sub h = arith h ''__sub'' OpSub"

definition mul :: "'x host \<Rightarrow> nat \<Rightarrow> int \<Rightarrow> int \<Rightarrow> 'x state \<Rightarrow> 'x outcome" where
  "mul h = arith h ''__mul'' OpMul"

definition div_op :: "'x host \<Rightarrow> nat \<Rightarrow> int \<Rightarrow> int \<Rightarrow> 'x state \<Rightarrow> 'x outcome" where
  "div_op h = arith h ''__div'' OpDiv"

definition mod_op :: "'x host \<Rightarrow> nat \<Rightarrow> int \<Rightarrow> int \<Rightarrow> 'x state \<Rightarrow> 'x outcome" where
  "mod_op h = arith h ''__mod'' OpMod"

definition pow :: "'x host \<Rightarrow> nat \<Rightarrow> int \<Rightarrow> int \<Rightarrow> 'x state \<Rightarrow> 'x outcome" where
  "pow h = arith h ''__pow'' OpPow"

subsection \<open>Comparison and tests\<close>

definition lt :: "'x host \<Rightarrow> nat \<Rightarrow> int \<Rightarrow> int \<Rightarrow> 'x state \<Rightarrow> 'x outcome" where
  "lt h a b c s =
     (let bv = RK s b; cv = RK s c in
      case metamethod (world s) bv ''__le'' of
        Some f \<Rightarrow>
          (case apply_meta h f [bv, cv] (world s) of
             (r, w') \<Rightarrow>
               (case first_result h r of
                  Inl e \<Rightarrow> Threw e (s\<lparr>world := w'\<rparr>)
                | Inr result \<Rightarrow> skip_if (loose_neq h result a) (s\<lparr>world := w'\<rparr>)))
      | None \<Rightarrow> skip_if (loose_neq h (Bool (less_than h bv cv)) a) s)"

definition test :: "nat \<Rightarrow> int \<Rightarrow> int \<Rightarrow> 'x state \<Rightarrow> 'x outcome" where
  "test a b c s =
     (let v = reg_get (register s) (int a) in
      if (case v of Num x \<Rightarrow> is_zero x | _ \<Rightarrow> False) \<or> v = Str []
      then skip_if (c = 0) s
      else skip_if (falsy v \<noteq> (c = 0)) s)"

definition testset :: "nat \<Rightarrow> int \<Rightarrow> int \<Rightarrow> 'x state \<Rightarrow> 'x outcome" where
  "testset a b c s =
     (if falsy (reg_get (register s) b) = (c = 0)
      then Done None (set_register s a (reg_get (register s) b))
      else Done None (s\<lparr>pc := pc s + 1\<rparr>))"

subsection \<open>Calls\<close>

text \<open>
  A handler runs with \<^verbatim>\<open>this\<close> bound by its caller. The dispatcher binds the activation
  (\<^verbatim>\<open>op.call (this, ...)\<close>); a plain call \<^verbatim>\<open>call (a, b, 0)\<close> in this non-strict file binds
  the host's global object, which has no \<^verbatim>\<open>_register\<close>: reading an element or a property
  of that missing register file raises the host's \<^verbatim>\<open>TypeError\<close>.
\<close>

datatype this_binding = TheActivation | GlobalObject

definition this_register :: "this_binding \<Rightarrow> 'x state \<Rightarrow> val option list option" where
  "this_register this s = (case this of TheActivation \<Rightarrow> Some (register s) | GlobalObject \<Rightarrow> None)"

definition collect_args :: "val option list \<Rightarrow> nat \<Rightarrow> int \<Rightarrow> val list" where
  "collect_args R a b =
     (if b = 0 then map (\<lambda>i. reg_get R (int i)) [a + 1 ..< length R]
      else map (\<lambda>i. reg_get R (int (a + i + 1))) [0 ..< nat (b - 1)])"

text \<open>
  Writing returned values back: all of them and a truncation when \<open>c = 0\<close>, the first
  \<open>c - 1\<close> otherwise. The same text serves a call and a resumption with yielded values.
\<close>

definition splice_results :: "val option list \<Rightarrow> nat \<Rightarrow> int \<Rightarrow> val list \<Rightarrow> val option list" where
  "splice_results R a c retvals =
     (if c = 0
      then take (a + length retvals) (write_loop R a (\<lambda>i. retvals ! i) (length retvals))
      else write_loop R a (\<lambda>i. nth_or_undefined retvals (int i)) (nat (c - 1)))"

definition has_apply :: "'x host \<Rightarrow> val \<Rightarrow> bool" where
  "has_apply h v = (case v of Fn f \<Rightarrow> True | Tbl t \<Rightarrow> table_has_apply h t | _ \<Rightarrow> False)"

text \<open>\<^verbatim>\<open>luajs.Coroutine._running && luajs.Coroutine._running.status == ...\<close>\<close>

definition coroutine_in :: "status \<Rightarrow> 'x world \<Rightarrow> coroutine option" where
  "coroutine_in st w =
     (case coroutine_running w of
        None \<Rightarrow> None
      | Some co \<Rightarrow> if co_status co = st then Some co else None)"

text \<open>\<^verbatim>\<open>stack.pop ()\<close>: the last element and the rest, or nothing from an empty stack.\<close>

definition pop :: "'a list \<Rightarrow> ('a \<times> 'a list) option" where
  "pop xs = (if xs = [] then None else Some (last xs, butlast xs))"

text \<open>The part of \<^verbatim>\<open>call\<close> after the callee or the resumed activation has come back.\<close>

definition call_finish ::
  "'x host \<Rightarrow> this_binding \<Rightarrow> nat \<Rightarrow> int \<Rightarrow> call_result \<times> 'x world \<Rightarrow> 'x state \<Rightarrow> 'x outcome" where
  "call_finish h this a c rw s =
     (case rw of
        (r, w') \<Rightarrow>
          (let s1 = s\<lparr>world := w'\<rparr> in
           case r of
             Throws e \<Rightarrow> Threw e s1
           | _ \<Rightarrow>
               (let retvals = (case r of ReturnsArray vs \<Rightarrow> vs | ReturnsOther v \<Rightarrow> [v] | _ \<Rightarrow> []) in
                if coroutine_in Suspending w' \<noteq> None then Done None s1
                else
                  (case this_register this s1 of
                     None \<Rightarrow> if c = 0 \<or> 0 < c - 1 then Threw (type_error h) s1 else Done None s1
                   | Some R \<Rightarrow> Done None (s1\<lparr>register := splice_results R a c retvals\<rparr>)))))"

definition call :: "'x host \<Rightarrow> this_binding \<Rightarrow> nat \<Rightarrow> int \<Rightarrow> int \<Rightarrow> 'x state \<Rightarrow> 'x outcome" where
  "call h this a b c s =
     (let w = world s in
      if debug_status w = Resuming then
        (case pop (debug_resumeStack w) of
           None \<Rightarrow> Threw (type_error h) s
         | Some (funcToResume, rest) \<Rightarrow>
             (let w1 = w\<lparr>debug_resumeStack := rest\<rparr> in
              call_finish h this a c
                (case funcToResume of
                   CoroutineObj k \<Rightarrow> resume_method h funcToResume w1
                 | _ \<Rightarrow> run_method h funcToResume w1)
                s))
      else
        (case coroutine_in Resuming w of
           Some co \<Rightarrow>
             (case pop (co_resumeStack co) of
                None \<Rightarrow> Threw (type_error h) s
              | Some (funcToResume, rest) \<Rightarrow>
                  call_finish h this a c
                    (run_method h funcToResume
                       (w\<lparr>coroutine_running := Some (co\<lparr>co_resumeStack := rest\<rparr>)\<rparr>))
                    s)
         | None \<Rightarrow>
             (case this_register this s of
                None \<Rightarrow> Threw (type_error h) s
              | Some R \<Rightarrow>
                  (let args = collect_args R a b; callee = reg_get R (int a) in
                   if falsy callee \<or> \<not> has_apply h callee
                   then Threw (lua_error h ''Attempt to call non-function'') s
                   else call_finish h this a c (apply_fn h callee args w) s))))"

definition tailcall :: "'x host \<Rightarrow> nat \<Rightarrow> int \<Rightarrow> 'x state \<Rightarrow> 'x outcome" where
  "tailcall h a b s = call h GlobalObject a b 0 s"

subsection \<open>Return and the closing of captured locals\<close>

definition close_cell :: "(nat \<Rightarrow> cell) \<Rightarrow> nat \<Rightarrow> val \<Rightarrow> (nat \<Rightarrow> cell)" where
  "close_cell cs cid v = cs(cid := (cs cid)\<lparr>c_value := v, c_open := False\<rparr>)"

text \<open>
  The loop of \<^verbatim>\<open>return_\<close> over the captured-locals list: every round closes the entry at
  the front with the register's value of that moment, removes it from the list and
  deletes the register slot, until the list is empty.
\<close>

fun close_all :: "(int \<times> nat) list \<Rightarrow> val option list \<Rightarrow> (nat \<Rightarrow> cell)
                    \<Rightarrow> val option list \<times> (nat \<Rightarrow> cell)" where
  "close_all [] R cs = (R, cs)"
| "close_all ((registerIndex, cid) # rest) R cs =
     close_all rest (reg_delete R registerIndex) (close_cell cs cid (reg_get R registerIndex))"

definition return_op :: "nat \<Rightarrow> int \<Rightarrow> 'x state \<Rightarrow> 'x outcome" where
  "return_op a b s =
     (let R = register s;
          retvals = (if b = 0 then map (\<lambda>i. reg_get R (int i)) [a ..< length R]
                     else map (\<lambda>i. reg_get R (int (a + i))) [0 ..< nat (b - 1)])
      in case close_all (localsUsedAsUpvalues s) R (cells s) of
           (R', cs') \<Rightarrow>
             Done (Some retvals) (s\<lparr>register := R', cells := cs', localsUsedAsUpvalues := []\<rparr>))"

text \<open>The loop of \<^verbatim>\<open>close\<close>: the same for the entries at or above register \<open>a\<close>; the others stay.\<close>

fun close_from :: "nat \<Rightarrow> (int \<times> nat) list \<Rightarrow> val option list \<Rightarrow> (nat \<Rightarrow> cell)
                    \<Rightarrow> (int \<times> nat) list \<times> val option list \<times> (nat \<Rightarrow> cell)" where
  "close_from a [] R cs = ([], R, cs)"
| "close_from a ((registerIndex, cid) # rest) R cs =
     (if registerIndex \<ge> int a
      then close_from a rest (reg_delete R registerIndex) (close_cell cs cid (reg_get R registerIndex))
      else (case close_from a rest R cs of
              (kept, R', cs') \<Rightarrow> ((registerIndex, cid) # kept, R', cs')))"

definition close :: "nat \<Rightarrow> 'x state \<Rightarrow> 'x outcome" where
  "close a s =
     (case close_from a (localsUsedAsUpvalues s) (register s) (cells s) of
        (kept, R', cs') \<Rightarrow>
          Done None (s\<lparr>register := R', cells := cs', localsUsedAsUpvalues := kept\<rparr>))"

subsection \<open>Closure creation\<close>

text \<open>
  \<^verbatim>\<open>closure\<close> consumes the pseudo-instructions that follow it (\<^verbatim>\<open>move\<close> or \<^verbatim>\<open>getupval\<close> with
  \<open>A = 0\<close>). A \<^verbatim>\<open>move\<close> reuses the cell already recorded for that register or makes a new
  open cell and records it; a \<^verbatim>\<open>getupval\<close> passes on an upvalue of this activation.
  \<open>rest\<close> is the instruction list from the program counter on.
\<close>

fun bind_upvalues :: "'x host \<Rightarrow> int \<Rightarrow> instruction list \<Rightarrow> upref list \<Rightarrow> 'x state
                        \<Rightarrow> thrown \<times> 'x state + upref list \<times> 'x state" where
  "bind_upvalues h bx [] ups s = Inr (ups, s)"
| "bind_upvalues h bx (i # rest) ups s =
     (if (instr_op i = 0 \<or> instr_op i = 4) \<and> instr_A i = 0 then
        (if instr_op i = 0 then
           (case find (\<lambda>up. fst up = instr_B i) (localsUsedAsUpvalues s) of
              Some up \<Rightarrow> bind_upvalues h bx rest (ups @ [LocalCell (snd up)]) (s\<lparr>pc := pc s + 1\<rparr>)
            | None \<Rightarrow>
                (if 0 \<le> bx \<and> nat bx < length (nested_functions (data s)) then
                   (let names = upvalues (nested_functions (data s) ! nat bx);
                        cid = next_cell s;
                        upvalue = \<lparr>c_open = True, c_value = Undefined, c_register = instr_B i,
                                   c_name = (if length ups < length names
                                             then Some (names ! length ups) else None)\<rparr>
                    in bind_upvalues h bx rest (ups @ [LocalCell cid])
                         (s\<lparr>cells := (cells s)(cid := upvalue), next_cell := cid + 1,
                            localsUsedAsUpvalues := localsUsedAsUpvalues s @ [(instr_B i, cid)],
                            pc := pc s + 1\<rparr>))
                 else Inl (type_error h, s)))
         else
           (if 0 \<le> instr_B i \<and> nat (instr_B i) < length (parent_upvalues s)
            then bind_upvalues h bx rest (ups @ [ParentUpvalue (instr_B i)]) (s\<lparr>pc := pc s + 1\<rparr>)
            else Inl (type_error h, s)))
      else Inr (ups, s))"

definition closure :: "'x host \<Rightarrow> nat \<Rightarrow> int \<Rightarrow> 'x state \<Rightarrow> 'x outcome" where
  "closure h a bx s =
     (case bind_upvalues h bx
             (if 0 \<le> pc s then drop (nat (pc s)) (instructions (data s)) else []) [] s of
        Inl (e, s') \<Rightarrow> Threw e s'
      | Inr (ups, s') \<Rightarrow> Done None (set_register s' a (Fn (LuaFn bx ups))))"

subsection \<open>Varargs\<close>

text \<open>The second loop of \<^verbatim>\<open>vararg\<close>: \<^verbatim>\<open>for (i = ...; i < this._register.length; i++) delete this._register[i]\<close>.\<close>

function delete_from :: "int \<Rightarrow> val option list \<Rightarrow> val option list" where
  "delete_from i R = (if i < int (length R) then delete_from (i + 1) (reg_delete R i) else R)"
  by pat_completeness auto
termination
  by (relation "measure (\<lambda>(i, R). nat (int (length R) - i))") (auto simp: reg_delete_def)

declare delete_from.simps [simp del]

definition vararg :: "nat \<Rightarrow> int \<Rightarrow> 'x state \<Rightarrow> 'x outcome" where
  "vararg a b s =
     (let limit = (if b = 0 then int (length (params s)) - int (paramCount (data s)) else b - 1);
          R1 = write_loop (register s) a
                 (\<lambda>i. nth_or_undefined (params s) (int (paramCount (data s) + i))) (nat limit)
      in Done None (s\<lparr>register := delete_from (int a + limit) R1\<rparr>))"

section \<open>The driver\<close>

text \<open>
  \<^verbatim>\<open>_executeInstruction\<close>: the handler table \<^verbatim>\<open>OPERATIONS\<close> has 38 entries; an opcode beyond
  it raises a host \<^verbatim>\<open>Error\<close>. The handlers modelled above are called with the activation
  as \<^verbatim>\<open>this\<close>; the others are the host's \<open>other_op\<close>. (The trace written to
  \<^verbatim>\<open>luajs.stddebug\<close> is output only and is left out.)
\<close>

definition run_other :: "'x host \<Rightarrow> instruction \<Rightarrow> 'x state \<Rightarrow> 'x outcome" where
  "run_other h i s =
     (case other_op h (instr_op i) (instr_A i) (instr_B i) (instr_C i) (register s, pc s, world s) of
        (thrown, R', pc', w') \<Rightarrow>
          (let s' = s\<lparr>register := R', pc := pc', world := w'\<rparr> in
           case thrown of None \<Rightarrow> Done None s' | Some e \<Rightarrow> Threw e s'))"

definition executeInstruction :: "'x host \<Rightarrow> instruction \<Rightarrow> 'x state \<Rightarrow> 'x outcome" where
  "executeInstruction h i s =
     (let op = instr_op i; a = instr_A i; b = instr_B i; c = instr_C i in
      if 38 \<le> op
      then Threw (host_error h (''Operation not implemented! ('' @ show_nat op @ '')'')) s
      else if op = 0 then move a b s
      else if op = 1 then loadk a b s
      else if op = 2 then loadbool a b c s
      else if op = 3 then loadnil a b s
      else if op = 12 then add h a b c s
      else if op = 13 then sub h a b c s
      else if op = 14 then mul h a b c s
      else if op = 15 then div_op h a b c s
      else if op = 16 then mod_op h a b c s
      else if op = 17 then pow h a b c s
      else if op = 22 then jmp a b s
      else if op = 24 then lt h a b c s
      else if op = 26 then test a b c s
      else if op = 27 then testset a b c s
      else if op = 28 then call h TheActivation a b c s
      else if op = 29 then tailcall h a b s
      else if op = 30 then return_op a b s
      else if op = 35 then close a s
      else if op = 36 then closure h a b s
      else if op = 37 then vararg a b s
      else run_other h i s)"

definition fetch :: "'x state \<Rightarrow> instruction option" where
  "fetch s =
     (if 0 \<le> pc s \<and> nat (pc s) < length (instructions (data s))
      then Some (instructions (data s) ! nat (pc s)) else None)"

text \<open>
  The part of \<^verbatim>\<open>_run\<close> before its loop: the flag is cleared; on a resumption the program
  counter steps back while activations are still to be resumed, and the yielded values
  are written as the results of the call instruction before the program counter.
\<close>

definition resume_prologue :: "'x host \<Rightarrow> 'x state \<Rightarrow> 'x outcome" where
  "resume_prologue h s =
     (let s0 = s\<lparr>terminated := False\<rparr>; w = world s0 in
      if debug_status w = Resuming then
        (if debug_resumeStack w \<noteq> [] then Done None (s0\<lparr>pc := pc s0 - 1\<rparr>)
         else Done None (s0\<lparr>world := w\<lparr>debug_status := Running\<rparr>\<rparr>))
      else
        (case coroutine_in Resuming w of
           None \<Rightarrow> Done None s0
         | Some co \<Rightarrow>
             if co_resumeStack co \<noteq> [] then Done None (s0\<lparr>pc := pc s0 - 1\<rparr>)
             else
               (let s1 = s0\<lparr>world := w\<lparr>coroutine_running := Some (co\<lparr>co_status := Running\<rparr>)\<rparr>\<rparr> in
                case co_yieldVars co of
                  None \<Rightarrow> Done None s1
                | Some yieldVars \<Rightarrow>
                    (case fetch (s1\<lparr>pc := pc s1 - 1\<rparr>) of
                       None \<Rightarrow> Threw (type_error h) s1
                     | Some i \<Rightarrow>
                         Done None
                           (s1\<lparr>register :=
                                 splice_results (register s1) (instr_A i) (instr_C i) yieldVars\<rparr>)))))"

text \<open>
  The loop of \<^verbatim>\<open>_run\<close>. It may run for ever, so it takes fuel: \<open>None\<close> is ``still
  running''. It ends when the program counter leaves the instruction list (terminated,
  no value), when the coroutine or the debugger is suspending (not terminated), or when
  a handler returned a value (terminated, that value); only \<^verbatim>\<open>return_\<close> returns one.
\<close>

fun run_loop :: "'x host \<Rightarrow> nat \<Rightarrow> 'x state \<Rightarrow> 'x outcome option" where
  "run_loop h 0 s = None"
| "run_loop h (Suc n) s =
     (case fetch s of
        None \<Rightarrow> Some (Done None (s\<lparr>terminated := True\<rparr>))
      | Some instruction \<Rightarrow>
          (case executeInstruction h instruction (s\<lparr>pc := pc s + 1\<rparr>) of
             Threw e s' \<Rightarrow> Some (Threw e s')
           | Done retval s' \<Rightarrow>
               (let w = world s' in
                case coroutine_in Suspending w of
                  Some co \<Rightarrow>
                    (let co1 = co\<lparr>co_resumeStack := co_resumeStack co @ [ThisClosure]\<rparr> in
                     if co_func_is_this co
                     then Some (Done (co_yieldVars co)
                            (s'\<lparr>world := coroutine_remove h
                                  (w\<lparr>coroutine_running := Some (co1\<lparr>co_status := Suspended\<rparr>)\<rparr>)\<rparr>))
                     else Some (Done None (s'\<lparr>world := w\<lparr>coroutine_running := Some co1\<rparr>\<rparr>)))
                | None \<Rightarrow>
                    if debug_status w = Suspending \<and> retval = None
                    then Some (Done None
                           (s'\<lparr>world := w\<lparr>debug_resumeStack := debug_resumeStack w @ [ThisClosure]\<rparr>\<rparr>))
                    else
                      (case retval of
                         Some retvals \<Rightarrow> Some (Done (Some retvals) (s'\<lparr>terminated := True\<rparr>))
                       | None \<Rightarrow> run_loop h n s'))))"

definition run :: "'x host \<Rightarrow> nat \<Rightarrow> 'x state \<Rightarrow> 'x outcome option" where
  "run h fuel s =
     (case resume_prologue h s of
        Threw e s' \<Rightarrow> Some (Threw e s')
      | Done r s' \<Rightarrow> run_loop h fuel s')"

subsection \<open>Entry\<close>

text \<open>
  \<^verbatim>\<open>execute (args)\<close> up to its \<^verbatim>\<open>try\<close>: \<open>args\<close> is the address of the caller's array. The
  saved arguments are a copy of it; \<^verbatim>\<open>args.splice (0, paramCount)\<close> takes the first
  \<open>paramCount\<close> elements out of the array itself and they become the register file; for a
  prototype flagged 7 a table of what is left in the array, with member \<^verbatim>\<open>n\<close>, is pushed.
\<close>

definition enter :: "nat \<Rightarrow> 'x state \<Rightarrow> 'x state" where
  "enter args s =
     (let s0 = s\<lparr>pc := 0\<rparr>;
          given = arrays s0 args;
          s1 = s0\<lparr>params := given,
                  arrays := (arrays s0)(args := drop (paramCount (data s0)) given),
                  register := map Some (take (paramCount (data s0)) given)\<rparr>
      in if is_vararg (data s1) = 7 then
           (let arg = arrays s1 args;
                w = world s1;
                t = next_table w;
                tbl = setMember (Table arg) ''n'' (Num (number_of_nat (length arg)))
            in s1\<lparr>register := register s1 @ [Some (Tbl t)],
                  world := w\<lparr>tables := (tables w)(t := tbl), next_table := t + 1\<rparr>\<rparr>)
         else s1)"

text \<open>
  The \<^verbatim>\<open>catch\<close> block of \<^verbatim>\<open>execute\<close>. The frame it pushes ends in
  \<^verbatim>\<open>this._data.linePositions[this._pc - 1]\<close> as the host prints it: a number in the host's
  number format, \<^verbatim>\<open>undefined\<close> where the list has no entry.
\<close>

definition line_text :: "'x state \<Rightarrow> string" where
  "line_text s =
     (let i = pc s - 1; ls = linePositions (data s) in
      if 0 \<le> i \<and> nat i < length ls then number_to_string (ls ! nat i) else ''undefined'')"

definition frame_text :: "'x state \<Rightarrow> string" where
  "frame_text s =
     ''at '' @ (case sourceName (data s) of
                  None \<Rightarrow> ''function''
                | Some name \<Rightarrow> if name = [] then ''function'' else name)
       @ '' on line '' @ line_text s"

text \<open>\<^verbatim>\<open>if (!e.luaStack) e.luaStack = []; e.luaStack.push (...)\<close>\<close>

definition push_frame :: "'x state \<Rightarrow> error \<Rightarrow> error" where
  "push_frame s e =
     e\<lparr>luaStack := Some ((case luaStack e of None \<Rightarrow> [] | Some frames \<Rightarrow> frames) @ [frame_text s])\<rparr>"

text \<open>
  What the \<^verbatim>\<open>catch\<close> block throws for what it caught. An instance of \<^verbatim>\<open>luajs.Error\<close> gets the
  frame. Anything else is first replaced by a new \<^verbatim>\<open>luajs.Error\<close>, which takes three reads
  of the caught value: \<^verbatim>\<open>e.stack\<close> raises the host's \<^verbatim>\<open>TypeError\<close> when \<open>e\<close> is \<^verbatim>\<open>null\<close> or
  \<^verbatim>\<open>undefined\<close>; \<^verbatim>\<open>e.stack || ''\<close> is the stack or the empty string; \<^verbatim>\<open>e.message\<close> is made a
  string by \<^verbatim>\<open>+\<close>; and \<^verbatim>\<open>stack.split\<close> is a function of strings only, so a stack that is
  neither false nor a string raises the \<^verbatim>\<open>TypeError\<close> as well. A \<^verbatim>\<open>TypeError\<close> raised in the
  block leaves \<^verbatim>\<open>execute\<close> as it is.
\<close>

definition catch_error :: "'x host \<Rightarrow> 'x state \<Rightarrow> thrown \<Rightarrow> thrown" where
  "catch_error h s e =
     (case e of
        LuaError le \<Rightarrow> LuaError (push_frame s le)
      | Nullish \<Rightarrow> type_error h
      | HostException msg stk \<Rightarrow>
          (case (if falsy stk then Str [] else stk) of
             Str st \<Rightarrow>
               LuaError (push_frame s
                 \<lparr>message = ''Error in host call: '' @ to_string h msg,
                  stack = Some st, luaStack = Some (split_lines st)\<rparr>)
           | _ \<Rightarrow> type_error h))"

definition execute :: "'x host \<Rightarrow> nat \<Rightarrow> nat \<Rightarrow> 'x state \<Rightarrow> 'x outcome option" where
  "execute h fuel args s =
     (case run h fuel (enter args s) of
        None \<Rightarrow> None
      | Some (Done r s') \<Rightarrow> Some (Done r s')
      | Some (Threw e s') \<Rightarrow> Some (Threw (catch_error h s' e) s'))"

text \<open>
  The function the constructor \<^verbatim>\<open>luajs.Closure\<close> returns: it copies its \<^verbatim>\<open>arguments\<close> into a
  new array and hands that one to \<^verbatim>\<open>execute\<close>.
\<close>

definition wrapper :: "'x host \<Rightarrow> nat \<Rightarrow> val list \<Rightarrow> 'x state \<Rightarrow> 'x outcome option" where
  "wrapper h fuel arguments s =
     (let args = next_array s in
      execute h fuel args (s\<lparr>arrays := (arrays s)(args := arguments), next_array := args + 1\<rparr>))"

section \<open>The specification's words\<close>

text \<open>
  The spec's \<open>isNumeric\<close> (``true iff v is a number, or a string whose textual form matches
  the floating-point pattern'') and \<open>truthy\<close> (``false iff v is nil or boolean false'').
\<close>

definition isNumeric :: "val \<Rightarrow> bool" where
  "isNumeric v = (case v of Num x \<Rightarrow> True | Str s \<Rightarrow> matches FLOATING_POINT_PATTERN s | _ \<Rightarrow> False)"

definition truthy :: "val \<Rightarrow> bool" where
  "truthy v = (v \<noteq> Undefined \<and> v \<noteq> Bool False)"

text \<open>A number other than \<^verbatim>\<open>NaN\<close> and the infinities, or a string the pattern matches.\<close>

definition finite_numeric :: "val \<Rightarrow> bool" where
  "finite_numeric v =
     (case v of Num (Finite neg s n) \<Rightarrow> True | Str s \<Rightarrow> matches FLOATING_POINT_PATTERN s | _ \<Rightarrow> False)"

text \<open>\<^verbatim>\<open>i in this._register\<close>: the register file has a slot at \<open>i\<close> (a hole is none).\<close>

definition has_slot :: "val option list \<Rightarrow> int \<Rightarrow> bool" where
  "has_slot R i = (0 \<le> i \<and> nat i < length R \<and> R ! nat i \<noteq> None)"

section \<open>Example inputs\<close>

text \<open>
  The constructor \<^verbatim>\<open>luajs.Closure\<close> leaves an empty register file, program counter 0 and an
  empty captured-locals list.
\<close>

definition new_closure :: "prototype \<Rightarrow> string option list \<Rightarrow> 'x world \<Rightarrow> 'x state" where
  "new_closure d ups w =
     \<lparr>data = d, parent_upvalues = ups, register = [], pc = 0, localsUsedAsUpvalues = [],
      params = [], terminated = False,
      cells = (\<lambda>cid. \<lparr>c_open = False, c_value = Undefined, c_register = 0, c_name = None\<rparr>),
      next_cell = 0, arrays = (\<lambda>r. []), next_array = 0, world = w\<rparr>"

text \<open>
  A host for the concrete runs below: every function value returns the one value 42,
  every metamethod returns no value, nothing is ever suspended.
\<close>

definition example_host :: "unit host" where
  "example_host =
     \<lparr>object_to_string = (\<lambda>v. ''[object Object]''),
      parseFloat = (\<lambda>v. case v of Num x \<Rightarrow> x | _ \<Rightarrow> NaN),
      float_op = (\<lambda>opr x y. NaN),
      less_than = (\<lambda>x y. False),
      string_to_number = (\<lambda>s. NaN),
      object_loose_eq = (\<lambda>v a. False),
      property_0 = (\<lambda>v. Undefined),
      table_has_apply = (\<lambda>t. False),
      apply_meta = (\<lambda>f args w. (ReturnsArray [], w)),
      apply_fn = (\<lambda>f args w. (ReturnsArray [Num (Finite False 42 2)], w)),
      resume_method = (\<lambda>r w. (ReturnsArray [], w)),
      run_method = (\<lambda>r w. (ReturnsArray [], w)),
      coroutine_remove = (\<lambda>w. w),
      new_error_stack = None,
      type_error_message = ''TypeError'',
      other_op = (\<lambda>op a b c x. (None, x))\<rparr>"

definition example_world :: "unit world" where
  "example_world =
     \<lparr>debug_status = NoStatus, debug_resumeStack = [], coroutine_running = None,
      tables = (\<lambda>t. Table []), next_table = 0, ext = ()\<rparr>"

definition example_prototype :: prototype where
  "example_prototype =
     \<lparr>instructions = [], constants = [], nested_functions = [], linePositions = [],
      paramCount = 0, is_vararg = 0, sourceName = None\<rparr>"

definition example_state :: "unit state" where
  "example_state = new_closure example_prototype [] example_world"

text \<open>
  A world with two tables: table 0 has table 1 as its metatable, and table 1 has the
  member \<^verbatim>\<open>__le\<close>, a function value.
\<close>

definition metatable_world :: "unit world" where
  "metatable_world =
     example_world\<lparr>tables := (\<lambda>t. if t = 0 then (Table [])\<lparr>metatable := Some 1\<rparr>
                                   else setMember (Table []) ''__le'' (Fn (HostFn 0))),
                   next_table := 2\<rparr>"

text \<open>The state an outcome leaves, and what it throws if it throws.\<close>

fun state_of :: "'x outcome \<Rightarrow> 'x state" where
  "state_of (Threw e s) = s"
| "state_of (Done r s) = s"

fun thrown_of :: "'x outcome \<Rightarrow> thrown option" where
  "thrown_of (Threw e s) = Some e"
| "thrown_of (Done r s) = None"

text \<open>
  The limit of \<^verbatim>\<open>VARARG\<close> in the spec's words: ``let \<open>extras = params.length - declaredParamCount\<close>.
  Limit is \<open>B - 1\<close> if \<open>B > 0\<close> else \<open>extras\<close>''. It is negative when fewer arguments than
  parameters were passed and \<open>B = 0\<close>.
\<close>

definition extras :: "'x state \<Rightarrow> int" where
  "extras s = int (length (params s)) - int (paramCount (data s))"

definition vararg_limit :: "'x state \<Rightarrow> int \<Rightarrow> int" where
  "vararg_limit s b = (if 0 < b then b - 1 else extras s)"

text \<open>
  An activation of a one-parameter prototype that was called with 10, 20, 30 and has
  four registers in use.
\<close>

definition vararg_state :: "unit state" where
  "vararg_state =
     (new_closure (example_prototype\<lparr>paramCount := 1\<rparr>) [] example_world)
       \<lparr>params := [Num (Finite False 1 2), Num (Finite False 2 2), Num (Finite False 3 2)],
        register := [Some (Num (Finite False 1 2)), Some (Str ''x''), Some (Str ''y''),
                     Some (Str ''z'')]\<rparr>"

text \<open>
  An activation of a three-parameter prototype that was called with 10 alone and has
  four registers in use.
\<close>

definition deficit_state :: "unit state" where
  "deficit_state =
     vararg_state\<lparr>data := example_prototype\<lparr>paramCount := 3\<rparr>,
                  params := [Num (Finite False 1 2)]\<rparr>"

text \<open>
  What no handler writes: the prototype, the upvalues handed in, the saved arguments,
  the store of argument arrays and the terminated flag. An outcome carries a value when
  a handler has returned one.
\<close>

definition same_frame :: "'x state \<Rightarrow> 'x state \<Rightarrow> bool" where
  "same_frame s s' =
     (data s' = data s \<and> parent_upvalues s' = parent_upvalues s \<and> params s' = params s
      \<and> arrays s' = arrays s \<and> next_array s' = next_array s \<and> terminated s' = terminated s)"

fun returns_value :: "'x outcome \<Rightarrow> bool" where
  "returns_value (Done (Some retvals) s) = True"
| "returns_value out = False"

text \<open>
  A two-parameter prototype from \<^verbatim>\<open>test.lua\<close> whose one instruction, on line 7, is
  \<^verbatim>\<open>ADD 0 0 1\<close>; and a prototype whose one instruction, on line 9, is \<^verbatim>\<open>TAILCALL 0 1\<close>.
\<close>

definition add_prototype :: prototype where
  "add_prototype =
     \<lparr>instructions = [\<lparr>instr_op = 12, instr_A = 0, instr_B = 0, instr_C = 1\<rparr>],
      constants = [], nested_functions = [], linePositions = [Finite False 7 1],
      paramCount = 2, is_vararg = 0, sourceName = Some ''test.lua''\<rparr>"

definition tailcall_prototype :: prototype where
  "tailcall_prototype =
     \<lparr>instructions = [\<lparr>instr_op = 29, instr_A = 0, instr_B = 1, instr_C = 0\<rparr>],
      constants = [], nested_functions = [], linePositions = [Finite False 9 1],
      paramCount = 1, is_vararg = 0, sourceName = Some ''test.lua''\<rparr>"

text \<open>
  A prototype whose instructions are \<^verbatim>\<open>CLOSURE 0 0\<close> and its pseudo-instruction
  \<^verbatim>\<open>MOVE 0 0\<close>, capturing register 0 for the nested prototype, and nothing more.
\<close>

definition capture_prototype :: prototype where
  "capture_prototype =
     \<lparr>instructions = [\<lparr>instr_op = 36, instr_A = 0, instr_B = 0, instr_C = 0\<rparr>,
                      \<lparr>instr_op = 0, instr_A = 0, instr_B = 0, instr_C = 0\<rparr>],
      constants = [], nested_functions = [\<lparr>upvalues = [''x'']\<rparr>], linePositions = [Finite False 1 1, Finite False 1 1],
      paramCount = 0, is_vararg = 0, sourceName = None\<rparr>"

text \<open>
  Every open cell among those this activation has made is on its captured-locals list.
\<close>

definition open_cells_recorded :: "'x state \<Rightarrow> bool" where
  "open_cells_recorded s =
     (\<forall>cid < next_cell s. c_open (cells s cid) \<longrightarrow> cid \<in> snd ` set (localsUsedAsUpvalues s))"

text \<open>
  The captured-locals list names each register once and each cell once, and every cell
  on it is one this activation has made.
\<close>

definition captured_once :: "'x state \<Rightarrow> bool" where
  "captured_once s =
     (distinct (map fst (localsUsedAsUpvalues s)) \<and> distinct (map snd (localsUsedAsUpvalues s))
      \<and> list_all (\<lambda>up. snd up < next_cell s) (localsUsedAsUpvalues s))"

text \<open>
  An activation of the \<^verbatim>\<open>ADD\<close> prototype and a caller's array holding 1, 2, 3 at address 0.
\<close>

definition splice_state :: "unit state" where
  "splice_state =
     (new_closure add_prototype [] example_world)
       \<lparr>arrays := (\<lambda>r. if r = 0
                         then [Num (Finite False 1 1), Num (Finite False 2 1), Num (Finite False 3 1)]
                         else []),
        next_array := 1\<rparr>"

text \<open>
  The \<^verbatim>\<open>ADD\<close> prototype called with \<^verbatim>\<open>"hello"\<close> and 1, and the \<^verbatim>\<open>TAILCALL\<close> prototype called
  with a function value.
\<close>

definition hello_state :: "unit state" where
  "hello_state =
     (new_closure add_prototype [] example_world)
       \<lparr>arrays := (\<lambda>r. [Str ''hello'', Num (Finite False 1 1)])\<rparr>"

definition tailcall_state :: "unit state" where
  "tailcall_state =
     (new_closure tailcall_prototype [] example_world)\<lparr>arrays := (\<lambda>r. [Fn (HostFn 0)])\<rparr>"

text \<open>
  A one-parameter prototype from \<^verbatim>\<open>test.lua\<close>: \<^verbatim>\<open>CALL 0 1 2\<close> on line 1 calls its parameter
  and keeps one result in register 0, \<^verbatim>\<open>ADD 1 0 K(0)\<close> on line 2 adds the constant
  \<^verbatim>\<open>"hello"\<close> to it. An activation of it called with a function value. And the same
  activation when that call has suspended it and the coroutine is being resumed with the
  value 42: the program counter is past the call, the register file is as the call
  found it, the coroutine's resume stack is empty again.
\<close>

definition call_add_prototype :: prototype where
  "call_add_prototype =
     \<lparr>instructions = [\<lparr>instr_op = 28, instr_A = 0, instr_B = 1, instr_C = 2\<rparr>,
                      \<lparr>instr_op = 12, instr_A = 1, instr_B = 0, instr_C = 256\<rparr>],
      constants = [Some (Str ''hello'')], nested_functions = [],
      linePositions = [Finite False 1 1, Finite False 2 1],
      paramCount = 1, is_vararg = 0, sourceName = Some ''test.lua''\<rparr>"

definition called_state :: "unit state" where
  "called_state =
     (new_closure call_add_prototype [] example_world)\<lparr>arrays := (\<lambda>r. [Fn (HostFn 0)])\<rparr>"

definition resuming_world :: "unit world" where
  "resuming_world =
     example_world\<lparr>coroutine_running :=
       Some \<lparr>co_status = Resuming, co_resumeStack = [],
             co_yieldVars = Some [Num (Finite False 42 2)], co_func_is_this = False\<rparr>\<rparr>"

definition resumed_state :: "unit state" where
  "resumed_state = (enter 0 called_state)\<lparr>pc := 1, world := resuming_world\<rparr>"

text \<open>
  A host whose function values yield: the call makes the running coroutine suspending,
  with the arguments as the yielded values. And a world in which a coroutine is running.
\<close>

definition yielding_host :: "unit host" where
  "yielding_host =
     example_host\<lparr>apply_fn := (\<lambda>f args w.
       (ReturnsArray [],
        w\<lparr>coroutine_running :=
            map_option (\<lambda>co. co\<lparr>co_status := Suspending, co_yieldVars := Some args\<rparr>)
              (coroutine_running w)\<rparr>))\<rparr>"

definition coroutine_world :: "unit world" where
  "coroutine_world =
     example_world\<lparr>coroutine_running :=
       Some \<lparr>co_status = Running, co_resumeStack = [], co_yieldVars = None,
             co_func_is_this = False\<rparr>\<rparr>"

text \<open>
  The run of the capturing prototype, started afresh with no arguments. And a
  one-parameter prototype that captures its parameter for a nested function and returns
  that function (\<^verbatim>\<open>CLOSURE 1 0\<close>, \<^verbatim>\<open>MOVE 0 0\<close>, \<^verbatim>\<open>RETURN 1 2\<close>), called with 10.
\<close>

definition capture_run :: "unit outcome option" where
  "capture_run = execute example_host 2 0 (new_closure capture_prototype [] example_world)"

definition return_prototype :: prototype where
  "return_prototype =
     \<lparr>instructions = [\<lparr>instr_op = 36, instr_A = 1, instr_B = 0, instr_C = 0\<rparr>,
                      \<lparr>instr_op = 0, instr_A = 0, instr_B = 0, instr_C = 0\<rparr>,
                      \<lparr>instr_op = 30, instr_A = 1, instr_B = 2, instr_C = 0\<rparr>],
      constants = [], nested_functions = [\<lparr>upvalues = [''x'']\<rparr>], linePositions = [Finite False 1 1, Finite False 1 1, Finite False 2 1],
      paramCount = 1, is_vararg = 0, sourceName = None\<rparr>"

definition return_state :: "unit state" where
  "return_state =
     enter 0 ((new_closure return_prototype [] example_world)
                \<lparr>arrays := (\<lambda>r. [Num (Finite False 1 2)])\<rparr>)"

text \<open>The same activation as it stands when its \<^verbatim>\<open>RETURN\<close> begins.\<close>

definition captured_state :: "unit state" where
  "captured_state =
     return_state
       \<lparr>register := [Some (Num (Finite False 1 2)), Some (Fn (LuaFn 0 [LocalCell 0]))],
        pc := 3,
        localsUsedAsUpvalues := [(0, 0)],
        cells := (cells return_state)
                   (0 := \<lparr>c_open = True, c_value = Undefined, c_register = 0, c_name = Some ''x''\<rparr>),
        next_cell := 1\<rparr>"

section \<open>The pattern accepts what the host prints for a finite number\<close>

lemma in_lang_nullable: "in_lang r s \<Longrightarrow> s = [] \<Longrightarrow> nullable r"
  by (induction rule: in_lang.induct) auto

lemma in_lang_deriv: "in_lang r s \<Longrightarrow> s = c # t \<Longrightarrow> in_lang (deriv c r) t"
proof (induction arbitrary: t rule: in_lang.induct)
  case (in_Seq r1 s1 r2 s2)
  show ?case
  proof (cases s1)
    case Nil
    with in_Seq have "nullable r1" "in_lang (deriv c r2) t"
      by (auto dest: in_lang_nullable)
    then show ?thesis by (simp add: in_lang.in_AltR)
  next
    case (Cons x s1')
    with in_Seq have "in_lang (deriv c r1) s1'" "t = s1' @ s2" by auto
    with in_Seq(2) have "in_lang (Seq (deriv c r1) r2) t" by (auto intro: in_lang.in_Seq)
    then show ?thesis by (auto intro: in_lang.in_AltL)
  qed
next
  case (in_StarCons r s1 s2)
  show ?case
  proof (cases s1)
    case Nil
    with in_StarCons show ?thesis by auto
  next
    case (Cons x s1')
    with in_StarCons have "in_lang (deriv c r) s1'" "t = s1' @ s2" by auto
    with in_StarCons(2) show ?thesis by (auto intro: in_lang.in_Seq)
  qed
qed (auto intro: in_lang.intros)

lemma in_lang_matches: "in_lang r s \<Longrightarrow> matches r s"
  by (induction s arbitrary: r) (auto dest: in_lang_nullable in_lang_deriv)

lemma star_digits: "set s \<subseteq> set digits \<Longrightarrow> in_lang (Star Digit) s"
proof (induction s)
  case Nil
  show ?case by (rule in_StarNil)
next
  case (Cons c s)
  then have "in_lang Digit [c]" "in_lang (Star Digit) s"
    by (auto intro: in_Class simp: Digit_def)
  then have "in_lang (Star Digit) ([c] @ s)" by (rule in_StarCons)
  then show ?case by simp
qed

lemma plus_digits: "set s \<subseteq> set digits \<Longrightarrow> s \<noteq> [] \<Longrightarrow> in_lang (Plus Digit) s"
proof (cases s)
  case Nil
  assume "s \<noteq> []" with Nil show ?thesis by simp
next
  case (Cons c t)
  assume sub: "set s \<subseteq> set digits"
  with Cons have "in_lang Digit [c]" by (auto intro: in_Class simp: Digit_def)
  moreover from sub Cons have "in_lang (Star Digit) t" by (auto intro: star_digits)
  ultimately have "in_lang (Seq Digit (Star Digit)) ([c] @ t)" by (rule in_Seq)
  with Cons show ?thesis by (simp add: Plus_def)
qed

lemma digit_char_digit: "d < 10 \<Longrightarrow> digit_char d \<in> set digits"
  unfolding digit_char_def by (rule nth_mem) (simp add: digits_def)

lemma show_nat_digits: "set (show_nat n) \<subseteq> set digits"
proof (induction n rule: show_nat.induct)
  case (1 n)
  show ?case
  proof (cases "n < 10")
    case True
    then show ?thesis using digit_char_digit[of n] by (subst show_nat.simps) simp
  next
    case False
    with 1 have "set (show_nat (n div 10)) \<subseteq> set digits" by simp
    moreover have "digit_char (n mod 10) \<in> set digits" by (rule digit_char_digit) simp
    ultimately show ?thesis using False by (subst show_nat.simps) simp
  qed
qed

lemma show_nat_nonempty: "show_nat n \<noteq> []"
  by (subst show_nat.simps) simp

lemma pattern_parts:
  "FLOATING_POINT_PATTERN =
     Seq (Opt (Class ''-+'')) (Seq (Star Digit) (Seq (Opt (Class ''.'')) (Opt Fraction)))"
  by (simp add: FLOATING_POINT_PATTERN_def Fraction_def Exponent_def)

lemma opt_nil: "in_lang (Opt r) []"
  unfolding Opt_def by (intro in_AltR in_Empty)

lemma opt_some: "in_lang r s \<Longrightarrow> in_lang (Opt r) s"
  unfolding Opt_def by (rule in_AltL)

lemma sign_lang: "in_lang (Opt (Class ''-+'')) (if neg then ''-'' else ''+'')"
  by (auto intro!: opt_some in_Class)

lemma exponent_text_lang: "in_lang Exponent (exponent_text e)"
proof -
  have "in_lang (Plus Digit) (show_nat (nat \<bar>e\<bar>))"
    by (intro plus_digits show_nat_digits show_nat_nonempty)
  with sign_lang have "in_lang (Seq (Opt (Class ''-+'')) (Plus Digit))
      ((if e < 0 then ''-'' else ''+'') @ show_nat (nat \<bar>e\<bar>))"
    by (rule in_Seq)
  moreover have "in_lang (Class ''eE'') ''e''" by (auto intro: in_Class)
  ultimately have "in_lang Exponent
      (''e'' @ (if e < 0 then ''-'' else ''+'') @ show_nat (nat \<bar>e\<bar>))"
    unfolding Exponent_def by (rule in_Seq[rotated])
  then show ?thesis by (simp add: exponent_text_def)
qed

lemma fraction_plain: "set fs \<subseteq> set digits \<Longrightarrow> fs \<noteq> [] \<Longrightarrow> in_lang Fraction fs"
proof -
  assume "set fs \<subseteq> set digits" "fs \<noteq> []"
  then have "in_lang (Plus Digit) fs" by (rule plus_digits)
  then have "in_lang (Seq (Plus Digit) (Opt Exponent)) (fs @ [])"
    using opt_nil by (rule in_Seq)
  then show ?thesis by (simp add: Fraction_def)
qed

lemma fraction_exp:
  "set fs \<subseteq> set digits \<Longrightarrow> fs \<noteq> [] \<Longrightarrow> in_lang Fraction (fs @ exponent_text e)"
proof -
  assume "set fs \<subseteq> set digits" "fs \<noteq> []"
  then have "in_lang (Plus Digit) fs" by (rule plus_digits)
  moreover have "in_lang (Opt Exponent) (exponent_text e)"
    by (intro opt_some exponent_text_lang)
  ultimately show ?thesis unfolding Fraction_def by (rule in_Seq)
qed

lemma pattern_assemble:
  assumes "in_lang (Opt (Class ''-+'')) sg" and "set ip \<subseteq> set digits"
    and "in_lang (Opt (Class ''.'')) dt" and "in_lang (Opt Fraction) fr"
  shows "in_lang FLOATING_POINT_PATTERN (sg @ ip @ dt @ fr)"
proof -
  from assms(3,4) have "in_lang (Seq (Opt (Class ''.'')) (Opt Fraction)) (dt @ fr)"
    by (rule in_Seq)
  with star_digits[OF assms(2)]
  have "in_lang (Seq (Star Digit) (Seq (Opt (Class ''.'')) (Opt Fraction))) (ip @ dt @ fr)"
    by (rule in_Seq)
  with assms(1) show ?thesis unfolding pattern_parts by (rule in_Seq)
qed

lemma zero_digit: "CHR ''0'' \<in> set digits"
  by (simp add: digits_def)

lemma dot_lang: "in_lang (Opt (Class ''.'')) ''.''"
  by (auto intro!: opt_some in_Class)

lemma digits_to_string_lang:
  assumes ds: "set ds \<subseteq> set digits" "ds \<noteq> []"
    and sg: "in_lang (Opt (Class ''-+'')) sg"
  shows "in_lang FLOATING_POINT_PATTERN (sg @ digits_to_string ds n)"
proof -
  let ?k = "int (length ds)"
  consider (plain) "?k \<le> n \<and> n \<le> 21"
    | (point) "\<not> (?k \<le> n \<and> n \<le> 21)" "0 < n \<and> n \<le> 21"
    | (small) "\<not> (?k \<le> n \<and> n \<le> 21)" "\<not> (0 < n \<and> n \<le> 21)" "- 6 < n \<and> n \<le> 0"
    | (exp1) "\<not> (?k \<le> n \<and> n \<le> 21)" "\<not> (0 < n \<and> n \<le> 21)" "\<not> (- 6 < n \<and> n \<le> 0)" "?k = 1"
    | (expk) "\<not> (?k \<le> n \<and> n \<le> 21)" "\<not> (0 < n \<and> n \<le> 21)" "\<not> (- 6 < n \<and> n \<le> 0)" "?k \<noteq> 1"
    by blast
  then show ?thesis
  proof cases
    case plain
    then have eq: "digits_to_string ds n = ds @ replicate (nat (n - ?k)) CHR ''0'' @ [] @ []"
      unfolding digits_to_string_def Let_def by auto
    have "set (ds @ replicate (nat (n - ?k)) CHR ''0'') \<subseteq> set digits"
      using ds(1) zero_digit by auto
    from pattern_assemble[OF sg this opt_nil opt_nil]
    show ?thesis unfolding eq by simp
  next
    case point
    then have eq: "digits_to_string ds n = take (nat n) ds @ ''.'' @ drop (nat n) ds"
      unfolding digits_to_string_def Let_def by auto
    from point have "n < ?k" by auto
    with point have ne: "drop (nat n) ds \<noteq> []" by auto
    have t: "set (take (nat n) ds) \<subseteq> set digits" using ds(1) set_take_subset by fastforce
    have d: "set (drop (nat n) ds) \<subseteq> set digits" using ds(1) set_drop_subset by fastforce
    from pattern_assemble[OF sg t dot_lang opt_some[OF fraction_plain[OF d ne]]]
    show ?thesis unfolding eq by simp
  next
    case small
    then have eq: "digits_to_string ds n = ''0'' @ ''.'' @ replicate (nat (- n)) CHR ''0'' @ ds"
      unfolding digits_to_string_def Let_def by auto
    have z: "set ''0'' \<subseteq> set digits" using zero_digit by simp
    have d: "set (replicate (nat (- n)) CHR ''0'' @ ds) \<subseteq> set digits"
      using ds(1) zero_digit by auto
    have ne: "replicate (nat (- n)) CHR ''0'' @ ds \<noteq> []" using ds(2) by simp
    from pattern_assemble[OF sg z dot_lang opt_some[OF fraction_plain[OF d ne]]]
    show ?thesis unfolding eq by simp
  next
    case exp1
    then have eq: "digits_to_string ds n = [] @ [] @ ds @ exponent_text (n - 1)"
      unfolding digits_to_string_def Let_def by auto
    have e: "set ([]::string) \<subseteq> set digits" by simp
    from pattern_assemble[OF sg e opt_nil opt_some[OF fraction_exp[OF ds]], of "n - 1"]
    show ?thesis unfolding eq by simp
  next
    case expk
    then have eq: "digits_to_string ds n = take 1 ds @ ''.'' @ drop 1 ds @ exponent_text (n - 1)"
      unfolding digits_to_string_def Let_def by auto
    from ds(2) expk(4) have ne: "drop 1 ds \<noteq> []" by (cases ds) auto
    have t: "set (take 1 ds) \<subseteq> set digits" using ds(1) set_take_subset by fastforce
    have d: "set (drop 1 ds) \<subseteq> set digits" using ds(1) set_drop_subset by fastforce
    from pattern_assemble[OF sg t dot_lang opt_some[OF fraction_exp[OF d ne]], of "n - 1"]
    show ?thesis unfolding eq by simp
  qed
qed

lemma finite_number_lang:
  "in_lang FLOATING_POINT_PATTERN (number_to_string (Finite neg s n))"
proof (cases "s = 0")
  case True
  have "set ''0'' \<subseteq> set digits" using zero_digit by simp
  from pattern_assemble[OF opt_nil this opt_nil opt_nil] True
  show ?thesis by simp
next
  case False
  have sg: "in_lang (Opt (Class ''-+'')) (if neg then ''-'' else [])"
    by (auto intro!: opt_some in_Class opt_nil)
  from digits_to_string_lang[OF show_nat_digits show_nat_nonempty sg, of s n] False
  show ?thesis by simp
qed

lemma finite_number_matches:
  "matches FLOATING_POINT_PATTERN (number_to_string (Finite neg s n))"
  by (rule in_lang_matches) (rule finite_number_lang)

lemma finite_numeric_text:
  "finite_numeric v \<Longrightarrow> matches FLOATING_POINT_PATTERN (to_string h v)"
proof -
  assume fn: "finite_numeric v"
  show ?thesis
  proof (cases v)
    case (Num x)
    with fn obtain neg s n where "x = Finite neg s n"
      by (cases x) (auto simp: finite_numeric_def)
    with Num show ?thesis
      using finite_number_matches[of neg s n] by (simp del: number_to_string.simps)
  next
    case (Str s)
    with fn show ?thesis by (simp add: finite_numeric_def)
  qed (use fn in \<open>auto simp: finite_numeric_def\<close>)
qed

lemma finite_numeric_no_metamethod: "finite_numeric v \<Longrightarrow> metamethod w v name = None"
  by (auto simp: finite_numeric_def metamethod_def split: val.splits number.splits)

lemma arith_finite_numeric:
  assumes "finite_numeric (RK s b)" and "finite_numeric (RK s c)"
  shows "arith h name opr a b c s =
           Done None (set_register s a
             (Num (float_op h opr (parseFloat h (RK s b)) (parseFloat h (RK s c)))))"
  using assms
  by (simp add: arith_def Let_def finite_numeric_no_metamethod finite_numeric_text)

section \<open>Arithmetic on numeric operands\<close>

lemma non_finite_text:
  "\<not> matches FLOATING_POINT_PATTERN (number_to_string NaN)"
  "\<not> matches FLOATING_POINT_PATTERN (number_to_string (Infinity neg))"
  by (simp_all add: FLOATING_POINT_PATTERN_def Opt_def Plus_def Digit_def digits_def)

text \<open>
  Where the handlers are total: when both operands \<open>RK(B)\<close> and \<open>RK(C)\<close> are finite numbers
  or strings that match the floating-point pattern, each of \<^verbatim>\<open>ADD\<close>, \<^verbatim>\<open>SUB\<close>, \<^verbatim>\<open>MUL\<close>, \<^verbatim>\<open>DIV\<close>,
  \<^verbatim>\<open>MOD\<close>, \<^verbatim>\<open>POW\<close> completes without raising and stores the host's arithmetic result in
  register \<open>A\<close>, whatever that result is: the result itself is not examined, so a
  quotient that is \<^verbatim>\<open>Infinity\<close> or \<^verbatim>\<open>NaN\<close> is stored like any other number.
\<close>

lemma arithmetic_total_on_finite_numerics:
  assumes "finite_numeric (RK s b)" and "finite_numeric (RK s c)"
  shows "add h a b c s = Done None (set_register s a
           (Num (float_op h OpAdd (parseFloat h (RK s b)) (parseFloat h (RK s c)))))
       \<and> sub h a b c s = Done None (set_register s a
           (Num (float_op h OpSub (parseFloat h (RK s b)) (parseFloat h (RK s c)))))
       \<and> mul h a b c s = Done None (set_register s a
           (Num (float_op h OpMul (parseFloat h (RK s b)) (parseFloat h (RK s c)))))
       \<and> div_op h a b c s = Done None (set_register s a
           (Num (float_op h OpDiv (parseFloat h (RK s b)) (parseFloat h (RK s c)))))
       \<and> mod_op h a b c s = Done None (set_register s a
           (Num (float_op h OpMod (parseFloat h (RK s b)) (parseFloat h (RK s c)))))
       \<and> pow h a b c s = Done None (set_register s a
           (Num (float_op h OpPow (parseFloat h (RK s b)) (parseFloat h (RK s c)))))"
  unfolding add_def sub_def mul_def div_op_def mod_op_def pow_def
  using assms by (simp add: arith_finite_numeric)

lemma arithmetic_total_example:
  "finite_numeric (RK (example_state\<lparr>register := [Some (Str ''1.5e3''), Some (Num (Finite True 25 1))]\<rparr>) 0)
   \<and> finite_numeric (RK (example_state\<lparr>register := [Some (Str ''1.5e3''), Some (Num (Finite True 25 1))]\<rparr>) 1)
   \<and> add example_host 2 0 1
        (example_state\<lparr>register := [Some (Str ''1.5e3''), Some (Num (Finite True 25 1))]\<rparr>)
      = Done None
          (example_state\<lparr>register :=
             [Some (Str ''1.5e3''), Some (Num (Finite True 25 1)), Some (Num NaN)]\<rparr>)"
proof -
  let ?s = "example_state\<lparr>register := [Some (Str ''1.5e3''), Some (Num (Finite True 25 1))]\<rparr>"
  have b: "finite_numeric (RK ?s 0)"
    by (simp add: finite_numeric_def RK_def reg_get_def FLOATING_POINT_PATTERN_def Opt_def
        Plus_def Digit_def digits_def)
  have c: "finite_numeric (RK ?s 1)"
    by (simp add: finite_numeric_def RK_def reg_get_def)
  from arithmetic_total_on_finite_numerics[OF b c, of example_host 2]
  have "add example_host 2 0 1 ?s = Done None (set_register ?s 2
          (Num (float_op example_host OpAdd (parseFloat example_host (RK ?s 0))
                  (parseFloat example_host (RK ?s 1)))))"
    by simp
  then have "add example_host 2 0 1 ?s
      = Done None (example_state\<lparr>register :=
          [Some (Str ''1.5e3''), Some (Num (Finite True 25 1)), Some (Num NaN)]\<rparr>)"
    by (simp add: set_register_def reg_set_def example_host_def)
  with b c show ?thesis by simp
qed

text \<open>
  C1 at a concrete input: \<^verbatim>\<open>Infinity\<close> (what \<^verbatim>\<open>DIV\<close> stores for 1 / 0, and the language's
  \<^verbatim>\<open>math.huge\<close>) is a number and so is 1, so both operands pass the spec's \<open>isNumeric\<close>; yet
  \<^verbatim>\<open>ADD\<close> of them raises the error of arithmetic on a non-numeric value. The handler tests
  the operand's text, here \<^verbatim>\<open>"Infinity"\<close>, against the floating-point pattern, and the
  pattern has no case for the host's words for the non-finite numbers. The same holds of
  \<^verbatim>\<open>-Infinity\<close> and \<^verbatim>\<open>NaN\<close>.
\<close>

theorem add_infinity_raises:
  "isNumeric (Num (Infinity False)) \<and> isNumeric (Num (Finite False 1 1)) \<and>
   add example_host 2 0 1
       (example_state\<lparr>register := [Some (Num (Infinity False)), Some (Num (Finite False 1 1))]\<rparr>)
     = Threw (lua_error example_host ''attempt to perform arithmetic on a non-numeric value'')
         (example_state\<lparr>register := [Some (Num (Infinity False)), Some (Num (Finite False 1 1))]\<rparr>)"
  by (simp add: isNumeric_def add_def arith_def RK_def reg_get_def metamethod_def
      FLOATING_POINT_PATTERN_def Opt_def Plus_def Digit_def digits_def)

section \<open>Comparison and tests\<close>

text \<open>
  Where the handlers and the language agree: \<^verbatim>\<open>LT\<close> with \<open>A\<close> 0 or 1 skips exactly when the
  comparison differs from \<open>A\<close> as long as the result is a boolean, which the primitive
  comparison always is; \<^verbatim>\<open>TEST\<close> follows the language's truthiness for every value but
  \<^verbatim>\<open>NaN\<close>, \<^verbatim>\<open>TESTSET\<close> for every value but \<^verbatim>\<open>NaN\<close>, zero and the empty string.
\<close>

lemma lt_primitive:
  "metamethod (world s) (RK s b) ''__le'' = None \<Longrightarrow> a \<le> 1 \<Longrightarrow>
     lt h a b c s = skip_if (less_than h (RK s b) (RK s c) \<noteq> (a \<noteq> 0)) s"
  by (cases "a = 0") (auto simp: lt_def Let_def)

lemma lt_boolean_metamethod:
  "metamethod (world s) (RK s b) ''__le'' = Some f \<Longrightarrow>
   apply_meta h f [RK s b, RK s c] (world s) = (ReturnsArray (Bool r # rest), w') \<Longrightarrow> a \<le> 1 \<Longrightarrow>
     lt h a b c s = skip_if (r \<noteq> (a \<noteq> 0)) (s\<lparr>world := w'\<rparr>)"
  by (cases "a = 0") (auto simp: lt_def Let_def)

lemma falsy_truthy:
  "v \<noteq> Num NaN \<Longrightarrow> \<not> (case v of Num x \<Rightarrow> is_zero x | _ \<Rightarrow> False) \<Longrightarrow> v \<noteq> Str [] \<Longrightarrow>
     falsy v = (\<not> truthy v)"
  by (cases v) (auto simp: truthy_def)

lemma test_agrees_unless_nan:
  "reg_get (register s) (int a) \<noteq> Num NaN \<Longrightarrow>
     test a b c s = skip_if (truthy (reg_get (register s) (int a)) \<noteq> (c \<noteq> 0)) s"
  by (cases "reg_get (register s) (int a)")
     (auto simp: test_def Let_def truthy_def is_zero_def split: number.splits)

lemma testset_agrees_on_others:
  assumes "reg_get (register s) b \<noteq> Num NaN"
    and "\<not> (case reg_get (register s) b of Num x \<Rightarrow> is_zero x | _ \<Rightarrow> False)"
    and "reg_get (register s) b \<noteq> Str []"
  shows "testset a b c s =
           (if truthy (reg_get (register s) b) = (c \<noteq> 0)
            then Done None (set_register s a (reg_get (register s) b))
            else Done None (s\<lparr>pc := pc s + 1\<rparr>))"
  using falsy_truthy[OF assms] by (auto simp: testset_def)

text \<open>
  C2 at a concrete input: \<open>RK(B)\<close> is a table whose metatable has \<^verbatim>\<open>__le\<close>, the metamethod
  returns no value, so the comparison result is nil, whose boolean is false; \<open>A\<close> is 0.
  The result's boolean does not differ from \<open>A\<close>, yet \<^verbatim>\<open>LT\<close> skips the next instruction:
  it compares the raw result with \<open>A\<close> by \<^verbatim>\<open>!=\<close>.
\<close>

theorem lt_nil_result_skips:
  "metamethod metatable_world (Tbl 0) ''__le'' = Some (Fn (HostFn 0))
   \<and> first_result example_host
        (fst (apply_meta example_host (Fn (HostFn 0)) [Tbl 0, Tbl 0] metatable_world))
      = Inr Undefined
   \<and> \<not> truthy Undefined
   \<and> lt example_host 0 0 1
        (example_state\<lparr>register := [Some (Tbl 0), Some (Tbl 0)], world := metatable_world\<rparr>)
      = Done None
          (example_state\<lparr>register := [Some (Tbl 0), Some (Tbl 0)], world := metatable_world,
                          pc := 1\<rparr>)"
  by (simp add: lt_def Let_def metamethod_def metatable_world_def example_world_def Table_def
      setMember_def getMember_def example_host_def truthy_def RK_def reg_get_def skip_if_def
      example_state_def new_closure_def)

text \<open>
  C3 at a concrete input: \<open>R[B]\<close> is the number 0, which the language counts as true, and
  \<open>C\<close> is 1, so \<open>truthy(R[B]) = truthy(C)\<close>; yet \<^verbatim>\<open>TESTSET\<close> leaves \<open>R[A]\<close> as it was and
  skips the next instruction.
\<close>

theorem testset_zero_skips:
  "truthy (Num (Finite False 0 0))
   \<and> testset 0 1 1
        (example_state\<lparr>register := [Some (Str ''old''), Some (Num (Finite False 0 0))]\<rparr>)
      = Done None
          (example_state\<lparr>register := [Some (Str ''old''), Some (Num (Finite False 0 0))],
                          pc := 1\<rparr>)"
  by (simp add: truthy_def testset_def reg_get_def is_zero_def example_state_def new_closure_def)

text \<open>
  C4 at a concrete input: \<open>R[A]\<close> is the number \<^verbatim>\<open>NaN\<close>, neither nil nor false, and \<open>C\<close> is 1,
  so \<open>truthy(R[A])\<close> does not differ from \<open>truthy(C)\<close>; yet \<^verbatim>\<open>TEST\<close> skips the next
  instruction.
\<close>

theorem test_nan_skips:
  "truthy (Num NaN)
   \<and> test 0 0 1 (example_state\<lparr>register := [Some (Num NaN)]\<rparr>)
      = Done None (example_state\<lparr>register := [Some (Num NaN)], pc := 1\<rparr>)"
  by (simp add: truthy_def test_def reg_get_def is_zero_def skip_if_def example_state_def
      new_closure_def)

section \<open>Calls\<close>

text \<open>
  Outside a resumption \<^verbatim>\<open>TAILCALL\<close> raises the host's \<^verbatim>\<open>TypeError\<close>, whatever its operands and
  registers are.
\<close>

lemma tailcall_type_error:
  "debug_status (world s) \<noteq> Resuming \<Longrightarrow> coroutine_in Resuming (world s) = None \<Longrightarrow>
     tailcall h a b s = Threw (type_error h) s"
  by (simp add: tailcall_def call_def Let_def this_register_def)

text \<open>
  C9 at a concrete input: \<open>R[0]\<close> is a function value that returns 42. \<^verbatim>\<open>CALL(0,1,0)\<close> calls
  it and leaves 42 in \<open>R[0]\<close>; \<^verbatim>\<open>TAILCALL(0,1)\<close> raises the host's \<^verbatim>\<open>TypeError\<close> and calls
  nothing: its plain call \<^verbatim>\<open>call (a, b, 0)\<close> runs the handler with the global object as
  \<^verbatim>\<open>this\<close>, where \<^verbatim>\<open>this._register\<close> is undefined.
\<close>

theorem tailcall_raises_where_call_returns:
  "call example_host TheActivation 0 1 0 (example_state\<lparr>register := [Some (Fn (HostFn 0))]\<rparr>)
     = Done None (example_state\<lparr>register := [Some (Num (Finite False 42 2))]\<rparr>)
   \<and> tailcall example_host 0 1 (example_state\<lparr>register := [Some (Fn (HostFn 0))]\<rparr>)
     = Threw (type_error example_host) (example_state\<lparr>register := [Some (Fn (HostFn 0))]\<rparr>)"
  by (simp add: call_def tailcall_def call_finish_def Let_def this_register_def collect_args_def
      splice_results_def write_loop_def reg_get_def reg_set_def has_apply_def coroutine_in_def
      example_state_def new_closure_def example_world_def example_host_def)

section \<open>Entry\<close>

text \<open>
  When at least \<open>paramCount\<close> arguments are passed to a prototype flagged 7, the
  parameters fill registers \<open>0 .. paramCount - 1\<close> and the table of the surplus arguments,
  with member \<^verbatim>\<open>n\<close> their count, is at register \<open>paramCount\<close>; so it is in the spec's
  example of one parameter and the arguments 10, 20, 30.
\<close>

lemma enter_enough_arguments:
  assumes "paramCount (data s) \<le> length (arrays s args)" and "is_vararg (data s) = 7"
  shows "length (register (enter args s)) = paramCount (data s) + 1"
    and "\<forall>i < paramCount (data s). register (enter args s) ! i = Some (arrays s args ! i)"
    and "register (enter args s) ! paramCount (data s) = Some (Tbl (next_table (world s)))"
    and "elements (tables (world (enter args s)) (next_table (world s)))
           = drop (paramCount (data s)) (arrays s args)"
    and "getMember (tables (world (enter args s)) (next_table (world s))) ''n''
           = Num (number_of_nat (length (arrays s args) - paramCount (data s)))"
    and "pc (enter args s) = 0"
  using assms
  by (simp_all add: enter_def Let_def nth_append setMember_def Table_def getMember_def)

lemma enter_example:
  "register (enter 0 ((new_closure (example_prototype\<lparr>paramCount := 1, is_vararg := 7\<rparr>) []
        example_world)\<lparr>arrays := (\<lambda>r. [Num (Finite False 1 2), Num (Finite False 2 2),
                                        Num (Finite False 3 2)])\<rparr>))
     = [Some (Num (Finite False 1 2)), Some (Tbl 0)]"
  "elements (tables (world (enter 0 ((new_closure (example_prototype\<lparr>paramCount := 1, is_vararg := 7\<rparr>) []
        example_world)\<lparr>arrays := (\<lambda>r. [Num (Finite False 1 2), Num (Finite False 2 2),
                                        Num (Finite False 3 2)])\<rparr>))) 0)
     = [Num (Finite False 2 2), Num (Finite False 3 2)]"
  "getMember (tables (world (enter 0 ((new_closure (example_prototype\<lparr>paramCount := 1, is_vararg := 7\<rparr>) []
        example_world)\<lparr>arrays := (\<lambda>r. [Num (Finite False 1 2), Num (Finite False 2 2),
                                        Num (Finite False 3 2)])\<rparr>))) 0) ''n''
     = Num (Finite False 2 1)"
  by (simp_all add: enter_def Let_def new_closure_def example_prototype_def example_world_def
      setMember_def Table_def getMember_def number_of_nat_def strip_zeros.simps show_nat.simps)

text \<open>
  C6 at a concrete input: a prototype with \<open>paramCount = 2\<close> and flag 7 is called with the
  one argument 10. The table of surplus arguments is pushed at register index 1, not at
  index \<open>paramCount = 2\<close>, so the second parameter's register holds the table.
\<close>

theorem enter_short_arguments:
  "register (enter 0 ((new_closure (example_prototype\<lparr>paramCount := 2, is_vararg := 7\<rparr>) []
                         example_world)\<lparr>arrays := (\<lambda>r. [Num (Finite False 1 2)])\<rparr>))
     = [Some (Num (Finite False 1 2)), Some (Tbl 0)]"
  by (simp add: enter_def Let_def new_closure_def example_prototype_def example_world_def)

section \<open>Varargs\<close>

lemma reg_delete_length [simp]: "length (reg_delete R i) = length R"
  by (simp add: reg_delete_def)

lemma reg_delete_nth:
  "j < length R \<Longrightarrow> reg_delete R i ! j = (if i = int j then None else R ! j)"
  by (auto simp: reg_delete_def)

lemma delete_from_length [simp]: "length (delete_from i R) = length R"
  by (induction i R rule: delete_from.induct) (subst delete_from.simps, simp)

lemma delete_from_nth:
  "j < length R \<Longrightarrow> delete_from i R ! j = (if i \<le> int j then None else R ! j)"
proof (induction i R rule: delete_from.induct)
  case (1 i R)
  show ?case
  proof (cases "i < int (length R)")
    case True
    with 1 have "delete_from (i + 1) (reg_delete R i) ! j
        = (if i + 1 \<le> int j then None else reg_delete R i ! j)" by simp
    with True 1(2) show ?thesis
      by (subst delete_from.simps) (auto simp: reg_delete_nth)
  next
    case False
    with 1(2) show ?thesis by (subst delete_from.simps) auto
  qed
qed

lemma reg_set_length: "length (reg_set R i v) = max (length R) (Suc i)"
  by (auto simp: reg_set_def)

lemma reg_set_nth_same: "reg_set R i v ! i = Some v"
  by (auto simp: reg_set_def nth_append)

lemma reg_set_nth_other:
  "j \<noteq> i \<Longrightarrow> j < length (reg_set R i v) \<Longrightarrow>
     reg_set R i v ! j = (if j < length R then R ! j else None)"
  by (auto simp: reg_set_def nth_append)

lemma write_loop_Suc: "write_loop R a f (Suc k) = reg_set (write_loop R a f k) (a + k) (f k)"
  by (simp add: write_loop_def)

lemma write_loop_length:
  "length (write_loop R a f k) = (if k = 0 then length R else max (length R) (a + k))"
  by (induction k) (auto simp: write_loop_Suc reg_set_length write_loop_def)

lemma write_loop_nth:
  "j < length (write_loop R a f k) \<Longrightarrow>
   write_loop R a f k ! j =
     (if a \<le> j \<and> j < a + k then Some (f (j - a)) else if j < length R then R ! j else None)"
proof (induction k arbitrary: j)
  case 0
  then show ?case by (auto simp: write_loop_def)
next
  case (Suc k)
  show ?case
  proof (cases "j = a + k")
    case True
    then show ?thesis by (simp add: write_loop_Suc reg_set_nth_same)
  next
    case False
    with Suc.prems have jl: "j < length (reg_set (write_loop R a f k) (a + k) (f k))"
      by (simp add: write_loop_Suc)
    show ?thesis
    proof (cases "j < length (write_loop R a f k)")
      case True
      with False jl Suc.IH[OF True] show ?thesis
        by (auto simp: write_loop_Suc reg_set_nth_other)
    next
      case False2: False
      with False jl show ?thesis
        by (auto simp: write_loop_Suc reg_set_nth_other write_loop_length split: if_splits)
    qed
  qed
qed


lemma has_slot_nat: "has_slot R (int j) = (j < length R \<and> R ! j \<noteq> None)"
  by (simp add: has_slot_def)

lemma reg_get_nat:
  "reg_get R (int j) = (if j < length R then (case R ! j of None \<Rightarrow> Undefined | Some v \<Rightarrow> v) else Undefined)"
  by (simp add: reg_get_def)

lemma vararg_result:
  "0 \<le> b \<Longrightarrow>
   vararg a b s = Done None (s\<lparr>register :=
     delete_from (int a + vararg_limit s b)
       (write_loop (register s) a
          (\<lambda>i. nth_or_undefined (params s) (int (paramCount (data s) + i)))
          (nat (vararg_limit s b)))\<rparr>)"
  by (auto simp: vararg_def Let_def vararg_limit_def extras_def)

lemma has_slot_negative: "j < 0 \<Longrightarrow> \<not> has_slot R j"
  by (simp add: has_slot_def)

lemma reg_get_negative: "j < 0 \<Longrightarrow> reg_get R j = Undefined"
  by (simp add: reg_get_def)

text \<open>
  C7: \<^verbatim>\<open>VARARG(A,B)\<close> with the spec's limit (\<open>params.length - paramCount\<close> when \<open>B = 0\<close>,
  \<open>B - 1\<close> when \<open>B > 0\<close>). The registers \<open>A .. A + limit - 1\<close> each hold the surplus argument
  of that position, or nil where there is none (when \<open>B = 0\<close> there always is one); no
  register slot exists at any index from \<open>A + limit\<close> on; and every register below both
  \<open>A\<close> and \<open>A + limit\<close> is as it was. The limit is not clamped: when it is negative
  nothing is copied and the slots from \<open>A + limit\<close> on, below \<open>A\<close> too, are deleted.
\<close>

theorem vararg_copies_surplus:
  assumes "0 \<le> b"
  shows "\<exists>R'. vararg a b s = Done None (s\<lparr>register := R'\<rparr>)
     \<and> (\<forall>i. 0 \<le> i \<and> i < vararg_limit s b \<longrightarrow>
          has_slot R' (int a + i)
          \<and> reg_get R' (int a + i)
              = nth_or_undefined (params s) (int (paramCount (data s)) + i))
     \<and> (b = 0 \<longrightarrow>
          (\<forall>i. 0 \<le> i \<and> i < vararg_limit s b \<longrightarrow>
             reg_get R' (int a + i) = params s ! (paramCount (data s) + nat i)))
     \<and> (\<forall>j. int a + vararg_limit s b \<le> j \<longrightarrow> \<not> has_slot R' j)
     \<and> (\<forall>j. j < int a \<and> j < int a + vararg_limit s b \<longrightarrow>
          has_slot R' j = has_slot (register s) j \<and> reg_get R' j = reg_get (register s) j)"
proof -
  define limit where "limit = vararg_limit s b"
  define k where "k = nat limit"
  define f where "f = (\<lambda>i. nth_or_undefined (params s) (int (paramCount (data s) + i)))"
  define W where "W = write_loop (register s) a f k"
  define R' where "R' = delete_from (int a + limit) W"
  have res: "vararg a b s = Done None (s\<lparr>register := R'\<rparr>)"
    unfolding R'_def W_def f_def k_def limit_def using assms by (rule vararg_result)
  have lenW: "length W = (if k = 0 then length (register s) else max (length (register s)) (a + k))"
    unfolding W_def by (rule write_loop_length)
  have len: "length R' = length W" by (simp add: R'_def)
  have nth: "R' ! j = (if int a + limit \<le> int j then None else W ! j)" if "j < length W" for j
    unfolding R'_def using that by (rule delete_from_nth)
  have Wn: "W ! j = (if a \<le> j \<and> j < a + k then Some (f (j - a))
                     else if j < length (register s) then register s ! j else None)"
    if "j < length W" for j
    using that unfolding W_def by (rule write_loop_nth)
  have copied: "has_slot R' (int a + i)
                \<and> reg_get R' (int a + i) = nth_or_undefined (params s) (int (paramCount (data s)) + i)"
    if "0 \<le> i" "i < limit" for i
  proof -
    define n where "n = nat i"
    from that have i: "i = int n" and nk: "n < k" by (auto simp: n_def k_def)
    from nk lenW have l: "a + n < length W" by auto
    from nk have "\<not> int a + limit \<le> int (a + n)" by (auto simp: k_def)
    with nth[OF l] Wn[OF l] nk have "R' ! (a + n) = Some (f n)" by simp
    with l len have "has_slot R' (int (a + n)) \<and> reg_get R' (int (a + n)) = f n"
      by (simp add: has_slot_nat reg_get_nat del: of_nat_add)
    then show ?thesis by (simp add: i f_def)
  qed
  have surplus: "reg_get R' (int a + i) = params s ! (paramCount (data s) + nat i)"
    if "b = 0" "0 \<le> i" "i < limit" for i
  proof -
    from that have "nat (int (paramCount (data s)) + i) = paramCount (data s) + nat i"
      and "nat (int (paramCount (data s)) + i) < length (params s)"
      by (auto simp: limit_def vararg_limit_def extras_def)
    with copied[OF that(2,3)] that(2) show ?thesis by (simp add: nth_or_undefined_def)
  qed
  have deleted: "\<not> has_slot R' j" if "int a + limit \<le> j" for j
  proof (cases "0 \<le> j \<and> nat j < length W")
    case True
    define n where "n = nat j"
    from True have j: "j = int n" and l: "n < length W" by (auto simp: n_def)
    from that j nth[OF l] show ?thesis by (simp add: has_slot_nat)
  next
    case False
    with len show ?thesis by (auto simp: has_slot_def)
  qed
  have below: "has_slot R' j = has_slot (register s) j \<and> reg_get R' j = reg_get (register s) j"
    if "j < int a" "j < int a + limit" for j
  proof (cases "0 \<le> j")
    case False
    then show ?thesis by (simp add: has_slot_negative reg_get_negative)
  next
    case True
    define n where "n = nat j"
    from True have j: "j = int n" by (simp add: n_def)
    from that j have na: "n < a" and nl: "\<not> int a + limit \<le> int n" by auto
    show ?thesis
    proof (cases "n < length W")
      case l: True
      from nth[OF l] Wn[OF l] na nl
      have "R' ! n = (if n < length (register s) then register s ! n else None)" by simp
      with l len show ?thesis unfolding j by (auto simp: has_slot_nat reg_get_nat)
    next
      case l: False
      with lenW have "\<not> n < length (register s)" by (auto split: if_splits)
      with l len show ?thesis unfolding j by (simp add: has_slot_nat reg_get_nat)
    qed
  qed
  from res copied surplus deleted below show ?thesis
    unfolding limit_def by blast
qed

text \<open>
  The theorem at two inputs. A one-parameter prototype called with 10, 20, 30:
  \<^verbatim>\<open>VARARG(1,0)\<close> has limit 2, copies 20 and 30 to registers 1 and 2, deletes register 3 and
  leaves register 0. A three-parameter prototype called with 10 alone: \<^verbatim>\<open>VARARG(1,0)\<close> has
  limit -2, so the slots from index -1 on are deleted, register 0 among them.
\<close>

theorem vararg_copies_surplus_witness:
  "vararg_limit vararg_state 0 = 2
   \<and> (\<exists>R'. vararg 1 0 vararg_state = Done None (vararg_state\<lparr>register := R'\<rparr>)
          \<and> reg_get R' 0 = Num (Finite False 1 2)
          \<and> has_slot R' 1 \<and> reg_get R' 1 = Num (Finite False 2 2)
          \<and> has_slot R' 2 \<and> reg_get R' 2 = Num (Finite False 3 2)
          \<and> \<not> has_slot R' 3)
   \<and> vararg_limit deficit_state 0 = - 2
   \<and> (\<exists>R'. vararg 1 0 deficit_state = Done None (deficit_state\<lparr>register := R'\<rparr>)
          \<and> \<not> has_slot R' 0 \<and> \<not> has_slot R' 1 \<and> \<not> has_slot R' 2)"
proof -
  have c: "vararg_limit vararg_state 0 = 2"
    by (simp add: vararg_limit_def extras_def vararg_state_def new_closure_def
        example_prototype_def)
  have p: "paramCount (data vararg_state) = 1"
    "params vararg_state = [Num (Finite False 1 2), Num (Finite False 2 2), Num (Finite False 3 2)]"
    "register vararg_state = [Some (Num (Finite False 1 2)), Some (Str ''x''), Some (Str ''y''),
                     Some (Str ''z'')]"
    by (simp_all add: vararg_state_def new_closure_def example_prototype_def)
  have d: "vararg_limit deficit_state 0 = - 2"
    by (simp add: vararg_limit_def extras_def deficit_state_def vararg_state_def new_closure_def
        example_prototype_def)
  have z: "(0::int) \<le> 0" by simp
  from vararg_copies_surplus[OF z, of 1 vararg_state] obtain R' where
    r: "vararg 1 0 vararg_state = Done None (vararg_state\<lparr>register := R'\<rparr>)"
    and cp: "\<forall>i. 0 \<le> i \<and> i < vararg_limit vararg_state 0 \<longrightarrow>
          has_slot R' (int 1 + i)
          \<and> reg_get R' (int 1 + i)
              = nth_or_undefined (params vararg_state) (int (paramCount (data vararg_state)) + i)"
    and del: "\<forall>j. int 1 + vararg_limit vararg_state 0 \<le> j \<longrightarrow> \<not> has_slot R' j"
    and below: "\<forall>j. j < int 1 \<and> j < int 1 + vararg_limit vararg_state 0 \<longrightarrow>
          has_slot R' j = has_slot (register vararg_state) j
          \<and> reg_get R' j = reg_get (register vararg_state) j"
    by blast
  from cp[rule_format, of 0] c
  have r1: "has_slot R' 1 \<and> reg_get R' 1 = Num (Finite False 2 2)"
    by (simp add: p nth_or_undefined_def)
  from cp[rule_format, of 1] c
  have r2: "has_slot R' 2 \<and> reg_get R' 2 = Num (Finite False 3 2)"
    by (simp add: p nth_or_undefined_def)
  from del[rule_format, of 3] c have r3: "\<not> has_slot R' 3" by simp
  from below[rule_format, of 0] c have r0: "reg_get R' 0 = Num (Finite False 1 2)"
    by (simp add: p reg_get_def)
  from vararg_copies_surplus[OF z, of 1 deficit_state] obtain Q where
    q: "vararg 1 0 deficit_state = Done None (deficit_state\<lparr>register := Q\<rparr>)"
    and qdel: "\<forall>j. int 1 + vararg_limit deficit_state 0 \<le> j \<longrightarrow> \<not> has_slot Q j"
    by blast
  from qdel[rule_format, of 0] qdel[rule_format, of 1] qdel[rule_format, of 2] d
  have q0: "\<not> has_slot Q 0 \<and> \<not> has_slot Q 1 \<and> \<not> has_slot Q 2" by simp
  from r r0 r1 r2 r3 have first: "\<exists>R'. vararg 1 0 vararg_state = Done None (vararg_state\<lparr>register := R'\<rparr>)
          \<and> reg_get R' 0 = Num (Finite False 1 2)
          \<and> has_slot R' 1 \<and> reg_get R' 1 = Num (Finite False 2 2)
          \<and> has_slot R' 2 \<and> reg_get R' 2 = Num (Finite False 3 2)
          \<and> \<not> has_slot R' 3" by blast
  from q q0 have second: "\<exists>R'. vararg 1 0 deficit_state = Done None (deficit_state\<lparr>register := R'\<rparr>)
          \<and> \<not> has_slot R' 0 \<and> \<not> has_slot R' 1 \<and> \<not> has_slot R' 2" by blast
  from c first d second show ?thesis by blast
qed

section \<open>What the handlers leave alone\<close>

lemma same_frame_refl [simp]: "same_frame s s"
  by (simp add: same_frame_def)

lemma same_frame_trans: "same_frame s s1 \<Longrightarrow> same_frame s1 s2 \<Longrightarrow> same_frame s s2"
  by (simp add: same_frame_def)

lemma same_frame_updates [simp]:
  "same_frame s (s'\<lparr>register := R\<rparr>) = same_frame s s'"
  "same_frame s (s'\<lparr>pc := p\<rparr>) = same_frame s s'"
  "same_frame s (s'\<lparr>world := w\<rparr>) = same_frame s s'"
  "same_frame s (s'\<lparr>cells := cs\<rparr>) = same_frame s s'"
  "same_frame s (s'\<lparr>next_cell := n\<rparr>) = same_frame s s'"
  "same_frame s (s'\<lparr>localsUsedAsUpvalues := l\<rparr>) = same_frame s s'"
  by (simp_all add: same_frame_def)

lemma set_register_frame [simp]: "same_frame s (set_register s' a v) = same_frame s s'"
  by (simp add: set_register_def)

lemma skip_if_frame [simp]:
  "same_frame s (state_of (skip_if c s')) = same_frame s s'" "\<not> returns_value (skip_if c s')"
  by (simp_all add: skip_if_def)

lemma simple_handlers_frame:
  "same_frame s (state_of (move a b s)) \<and> \<not> returns_value (move a b s)"
  "same_frame s (state_of (loadk a b s)) \<and> \<not> returns_value (loadk a b s)"
  "same_frame s (state_of (loadbool a b c s)) \<and> \<not> returns_value (loadbool a b c s)"
  "same_frame s (state_of (loadnil a b s)) \<and> \<not> returns_value (loadnil a b s)"
  "same_frame s (state_of (jmp a b s)) \<and> \<not> returns_value (jmp a b s)"
  "same_frame s (state_of (test a b c s)) \<and> \<not> returns_value (test a b c s)"
  "same_frame s (state_of (testset a b c s)) \<and> \<not> returns_value (testset a b c s)"
  "same_frame s (state_of (vararg a b s)) \<and> \<not> returns_value (vararg a b s)"
  "same_frame s (state_of (close a s)) \<and> \<not> returns_value (close a s)"
  by (simp_all add: move_def loadk_def loadbool_def loadnil_def jmp_def test_def testset_def
      vararg_def close_def Let_def split: prod.splits)

lemma arith_frame:
  "same_frame s (state_of (arith h name opr a b c s)) \<and> \<not> returns_value (arith h name opr a b c s)"
  by (simp add: arith_def Let_def split: option.splits prod.splits sum.splits)

lemma lt_frame:
  "same_frame s (state_of (lt h a b c s)) \<and> \<not> returns_value (lt h a b c s)"
  by (simp add: lt_def Let_def split: option.splits prod.splits sum.splits)

lemma call_finish_frame:
  "same_frame s (state_of (call_finish h this a c rw s)) \<and> \<not> returns_value (call_finish h this a c rw s)"
  by (simp add: call_finish_def Let_def split: option.splits prod.splits call_result.splits)

lemma call_frame:
  "same_frame s (state_of (call h this a b c s)) \<and> \<not> returns_value (call h this a b c s)"
  by (simp add: call_def Let_def call_finish_frame split: option.splits prod.splits resumable.splits)

lemma tailcall_frame:
  "same_frame s (state_of (tailcall h a b s)) \<and> \<not> returns_value (tailcall h a b s)"
  by (simp add: tailcall_def call_frame)

lemma return_op_frame: "same_frame s (state_of (return_op a b s))"
  by (simp add: return_op_def Let_def split: prod.splits)

lemma same_frame_left [simp]:
  "same_frame (s\<lparr>pc := p\<rparr>) s' = same_frame s s'"
  "same_frame (s\<lparr>cells := cs\<rparr>) s' = same_frame s s'"
  "same_frame (s\<lparr>next_cell := n\<rparr>) s' = same_frame s s'"
  "same_frame (s\<lparr>localsUsedAsUpvalues := l\<rparr>) s' = same_frame s s'"
  "same_frame (s\<lparr>register := R\<rparr>) s' = same_frame s s'"
  "same_frame (s\<lparr>world := w\<rparr>) s' = same_frame s s'"
  by (simp_all add: same_frame_def)

lemma bind_upvalues_frame:
  "same_frame s (case bind_upvalues h bx is ups s of Inl x \<Rightarrow> snd x | Inr y \<Rightarrow> snd y)"
proof (induction h bx "is" ups s rule: bind_upvalues.induct)
  case (1 h bx ups s)
  show ?case by simp
next
  case (2 h bx i rest ups s)
  show ?case
  proof (cases "(instr_op i = 0 \<or> instr_op i = 4) \<and> instr_A i = 0")
    case False
    then show ?thesis by auto
  next
    case pseudo: True
    show ?thesis
    proof (cases "instr_op i = 0")
      case mv: True
      show ?thesis
      proof (cases "find (\<lambda>up. fst up = instr_B i) (localsUsedAsUpvalues s)")
        case (Some up)
        with 2(2)[OF pseudo mv Some] pseudo mv show ?thesis by simp
      next
        case None
        show ?thesis
        proof (cases "0 \<le> bx \<and> nat bx < length (nested_functions (data s))")
          case True
          from 2(1)[OF pseudo mv None True refl refl refl] pseudo mv None True
          show ?thesis by (simp add: Let_def)
        next
          case False
          with pseudo mv None show ?thesis by auto
        qed
      qed
    next
      case gu: False
      show ?thesis
      proof (cases "0 \<le> instr_B i \<and> nat (instr_B i) < length (parent_upvalues s)")
        case True
        from 2(3)[OF pseudo gu True] pseudo gu True show ?thesis by simp
      next
        case False
        with pseudo gu show ?thesis by auto
      qed
    qed
  qed
qed

lemma closure_frame:
  "same_frame s (state_of (closure h a bx s)) \<and> \<not> returns_value (closure h a bx s)"
  using bind_upvalues_frame[of s h bx "if 0 \<le> pc s then drop (nat (pc s)) (instructions (data s)) else []" "[]"]
  by (auto simp: closure_def split: sum.splits prod.splits)

lemma run_other_frame:
  "same_frame s (state_of (run_other h i s)) \<and> \<not> returns_value (run_other h i s)"
  by (simp add: run_other_def Let_def split: prod.splits option.splits)

lemma executeInstruction_frame: "same_frame s (state_of (executeInstruction h i s))"
  by (simp add: executeInstruction_def Let_def simple_handlers_frame arith_frame lt_frame
      call_frame tailcall_frame return_op_frame closure_frame run_other_frame
      add_def sub_def mul_def div_op_def mod_op_def pow_def)

lemma executeInstruction_value:
  "returns_value (executeInstruction h i s) \<Longrightarrow>
     instr_op i = 30 \<and> executeInstruction h i s = return_op (instr_A i) (instr_B i) s"
  by (simp add: executeInstruction_def Let_def simple_handlers_frame arith_frame lt_frame
      call_frame tailcall_frame closure_frame run_other_frame
      add_def sub_def mul_def div_op_def mod_op_def pow_def split: if_splits)


lemma resume_prologue_frame:
  "same_frame (s\<lparr>terminated := False\<rparr>) (state_of (resume_prologue h s))"
  by (simp add: resume_prologue_def Let_def same_frame_def split: option.splits)

lemma run_loop_frame:
  "run_loop h n s = Some out \<Longrightarrow> same_frame s ((state_of out)\<lparr>terminated := terminated s\<rparr>)"
proof (induction n arbitrary: s)
  case 0
  then show ?case by simp
next
  case (Suc n)
  show ?case
  proof (cases "fetch s")
    case None
    with Suc.prems show ?thesis by (auto simp: same_frame_def)
  next
    case (Some i)
    let ?s1 = "s\<lparr>pc := pc s + 1\<rparr>"
    have f: "same_frame ?s1 (state_of (executeInstruction h i ?s1))"
      by (rule executeInstruction_frame)
    show ?thesis
    proof (cases "executeInstruction h i ?s1")
      case (Threw e s2)
      with Suc.prems Some f show ?thesis by (auto simp: same_frame_def)
    next
      case (Done retval s2)
      with f have f2: "same_frame s s2" by simp
      consider (co) co where "coroutine_in Suspending (world s2) = Some co"
        | (dbg) "coroutine_in Suspending (world s2) = None"
                "debug_status (world s2) = Suspending \<and> retval = None"
        | (ret) retvals where "coroutine_in Suspending (world s2) = None"
                "\<not> (debug_status (world s2) = Suspending \<and> retval = None)" "retval = Some retvals"
        | (loop) "coroutine_in Suspending (world s2) = None"
                "\<not> (debug_status (world s2) = Suspending \<and> retval = None)" "retval = None"
        by (cases "coroutine_in Suspending (world s2)"; cases retval) auto
      then show ?thesis
      proof cases
        case co
        with Suc.prems Some Done f2 show ?thesis
          by (auto simp: Let_def same_frame_def split: if_splits)
      next
        case dbg
        with Suc.prems Some Done f2 show ?thesis by (auto simp: Let_def same_frame_def)
      next
        case ret
        with Suc.prems Some Done f2 show ?thesis by (auto simp: Let_def same_frame_def)
      next
        case loop
        with Suc.prems Some Done have "run_loop h n s2 = Some out" by (simp add: Let_def)
        from Suc.IH[OF this] f2 show ?thesis by (simp add: same_frame_def)
      qed
    qed
  qed
qed

lemma run_frame:
  "run h n s = Some out \<Longrightarrow>
     data (state_of out) = data s \<and> params (state_of out) = params s
     \<and> arrays (state_of out) = arrays s \<and> next_array (state_of out) = next_array s"
proof -
  assume r: "run h n s = Some out"
  have p: "same_frame (s\<lparr>terminated := False\<rparr>) (state_of (resume_prologue h s))"
    by (rule resume_prologue_frame)
  show ?thesis
  proof (cases "resume_prologue h s")
    case (Threw e s1)
    with r p show ?thesis by (auto simp: run_def same_frame_def)
  next
    case (Done x s1)
    with r have "run_loop h n s1 = Some out" by (simp add: run_def)
    from run_loop_frame[OF this] p Done show ?thesis by (simp add: same_frame_def)
  qed
qed

lemma enter_fields:
  "data (enter args s) = data s"
  "params (enter args s) = arrays s args"
  "arrays (enter args s) = (arrays s)(args := drop (paramCount (data s)) (arrays s args))"
  "next_array (enter args s) = next_array s"
  by (simp_all add: enter_def Let_def)

lemma execute_frame:
  assumes "execute h fuel args s = Some out"
  shows "data (state_of out) = data s \<and> params (state_of out) = arrays s args
     \<and> arrays (state_of out) = (arrays s)(args := drop (paramCount (data s)) (arrays s args))
     \<and> next_array (state_of out) = next_array s"
proof -
  from assms obtain out' where r: "run h fuel (enter args s) = Some out'"
    and st: "state_of out = state_of out'"
    by (auto simp: execute_def split: option.splits outcome.splits)
  from run_frame[OF r] st show ?thesis by (simp add: enter_fields)
qed

lemmas run_defs = execute_def wrapper_def run_def resume_prologue_def enter_def fetch_def
  executeInstruction_def Let_def coroutine_in_def numeral_2_eq_2

lemma splice_state_runs:
  "execute example_host 2 0 splice_state \<noteq> None"
  "wrapper example_host 2 (arrays splice_state 0) splice_state \<noteq> None"
  by (simp_all add: run_defs splice_state_def new_closure_def add_prototype_def
      example_world_def example_host_def add_def arith_def RK_def reg_get_def metamethod_def
      finite_number_matches set_register_def reg_set_def
      del: number_to_string.simps)

section \<open>The caller's argument array\<close>

text \<open>
  C10: whenever \<^verbatim>\<open>execute (args)\<close> comes back, by returning or by raising, the caller's
  array has lost its first \<open>paramCount\<close> elements and holds the surplus arguments only,
  the saved arguments \<^verbatim>\<open>_params\<close> are the whole original vector, and no other array has
  changed. The wrapper function hands \<^verbatim>\<open>execute\<close> a new array, so every array that existed
  before the call, the caller's included, is as it was.
\<close>

theorem execute_splices_callers_array:
  "(execute h fuel args s = Some out \<longrightarrow>
      arrays (state_of out) args = drop (paramCount (data s)) (arrays s args)
      \<and> params (state_of out) = arrays s args
      \<and> (\<forall>r. r \<noteq> args \<longrightarrow> arrays (state_of out) r = arrays s r))
   \<and> (wrapper h fuel arguments s = Some out' \<longrightarrow>
      (\<forall>r. r \<noteq> next_array s \<longrightarrow> arrays (state_of out') r = arrays s r)
      \<and> params (state_of out') = arguments
      \<and> arrays (state_of out') (next_array s) = drop (paramCount (data s)) arguments)"
proof (intro conjI impI)
  assume "execute h fuel args s = Some out"
  from execute_frame[OF this]
  show "arrays (state_of out) args = drop (paramCount (data s)) (arrays s args)"
    "params (state_of out) = arrays s args"
    "\<forall>r. r \<noteq> args \<longrightarrow> arrays (state_of out) r = arrays s r"
    by simp_all
next
  assume "wrapper h fuel arguments s = Some out'"
  then have "execute h fuel (next_array s)
      (s\<lparr>arrays := (arrays s)(next_array s := arguments), next_array := next_array s + 1\<rparr>) = Some out'"
    by (simp add: wrapper_def Let_def)
  from execute_frame[OF this]
  show "\<forall>r. r \<noteq> next_array s \<longrightarrow> arrays (state_of out') r = arrays s r"
    "params (state_of out') = arguments"
    "arrays (state_of out') (next_array s) = drop (paramCount (data s)) arguments"
    by simp_all
qed

theorem execute_splices_callers_array_witness:
  "\<exists>out out'. execute example_host 2 0 splice_state = Some out
      \<and> arrays (state_of out) 0 = [Num (Finite False 3 1)]
      \<and> params (state_of out)
           = [Num (Finite False 1 1), Num (Finite False 2 1), Num (Finite False 3 1)]
      \<and> wrapper example_host 2 (arrays splice_state 0) splice_state = Some out'
      \<and> arrays (state_of out') 0
           = [Num (Finite False 1 1), Num (Finite False 2 1), Num (Finite False 3 1)]
      \<and> params (state_of out')
           = [Num (Finite False 1 1), Num (Finite False 2 1), Num (Finite False 3 1)]"
proof -
  have f: "arrays splice_state 0
      = [Num (Finite False 1 1), Num (Finite False 2 1), Num (Finite False 3 1)]"
    "paramCount (data splice_state) = 2" "next_array splice_state = 1"
    by (simp_all add: splice_state_def new_closure_def add_prototype_def)
  from splice_state_runs obtain out out' where
    o: "execute example_host 2 0 splice_state = Some out"
    and o': "wrapper example_host 2 (arrays splice_state 0) splice_state = Some out'"
    by auto
  from execute_splices_callers_array[of example_host 2 0 splice_state out] o
  have "arrays (state_of out) 0 = drop (paramCount (data splice_state)) (arrays splice_state 0)"
    "params (state_of out) = arrays splice_state 0"
    by simp_all
  moreover
  from execute_splices_callers_array[where h = example_host and fuel = 2 and s = splice_state
      and arguments = "arrays splice_state 0" and out' = out'] o'
  have "arrays (state_of out') 0 = arrays splice_state 0"
    "params (state_of out') = arrays splice_state 0"
    by (simp_all add: f(3))
  ultimately show ?thesis using o o' by (simp add: f)
qed

section \<open>Errors leaving an activation\<close>

text \<open>
  Where \<^verbatim>\<open>execute\<close> does what the spec says: whatever the run of an activation entered
  through \<^verbatim>\<open>execute\<close> raises goes through the \<^verbatim>\<open>catch\<close> block. A language error leaves with
  exactly one more frame at the end of its source stack. A host exception whose stack is
  absent or a string leaves as a new language error with the message
  \<^verbatim>\<open>Error in host call: \<close> and the host's message, the host's stack, and a source stack
  made of the stack's lines and the frame. For a named prototype with a line position at
  \<open>pc - 1\<close> the frame reads \<^verbatim>\<open>at <sourceName> on line <line>\<close>.
\<close>

lemma execute_catches:
  "run h fuel (enter args s) = Some (Threw e s') \<Longrightarrow>
     execute h fuel args s = Some (Threw (catch_error h s' e) s')"
  by (simp add: execute_def)

lemma catch_error_lua:
  "catch_error h s (LuaError e) =
     LuaError (e\<lparr>luaStack := Some ((case luaStack e of None \<Rightarrow> [] | Some fs \<Rightarrow> fs) @ [frame_text s])\<rparr>)"
  by (simp add: catch_error_def push_frame_def)

lemma catch_error_host:
  "catch_error h s (HostException msg (Str st)) =
     LuaError \<lparr>message = ''Error in host call: '' @ to_string h msg, stack = Some st,
               luaStack = Some (split_lines st @ [frame_text s])\<rparr>"
  "catch_error h s (HostException msg Undefined) =
     LuaError \<lparr>message = ''Error in host call: '' @ to_string h msg, stack = Some [],
               luaStack = Some [[], frame_text s]\<rparr>"
  by (cases st) (simp_all add: catch_error_def push_frame_def)

lemma frame_text_named:
  "sourceName (data s) = Some name \<Longrightarrow> name \<noteq> [] \<Longrightarrow> 0 < pc s \<Longrightarrow>
   nat (pc s - 1) < length (linePositions (data s)) \<Longrightarrow>
     frame_text s
       = ''at '' @ name @ '' on line '' @ number_to_string (linePositions (data s) ! nat (pc s - 1))"
  by (auto simp: frame_text_def line_text_def Let_def)

lemma hello_state_throws:
  "map_option thrown_of (execute example_host 1 0 hello_state)
     = Some (Some (LuaError \<lparr>message = ''attempt to perform arithmetic on a non-numeric value'',
                              stack = None, luaStack = Some [''at test.lua on line 7'']\<rparr>))"
  by (simp add: run_defs hello_state_def new_closure_def add_prototype_def
      example_world_def example_host_def add_def arith_def RK_def reg_get_def metamethod_def
      FLOATING_POINT_PATTERN_def Opt_def Plus_def Digit_def digits_def
      lua_error_def catch_error_def push_frame_def frame_text_def line_text_def
      digits_to_string_def show_nat.simps digit_char_def)

lemma tailcall_state_throws:
  "map_option thrown_of (execute example_host 1 0 tailcall_state)
     = Some (Some (LuaError \<lparr>message = ''Error in host call: TypeError'',
                              stack = Some [], luaStack = Some [[], ''at test.lua on line 9'']\<rparr>))"
  by (simp add: run_defs tailcall_state_def new_closure_def tailcall_prototype_def
      example_world_def example_host_def tailcall_def call_def this_register_def
      type_error_def host_error_def catch_error_def push_frame_def frame_text_def line_text_def
      digits_to_string_def show_nat.simps digit_char_def digits_def)

text \<open>
  How an activation comes to be resumed: when the callee of its \<^verbatim>\<open>CALL\<close> yields, \<^verbatim>\<open>execute\<close>
  returns with the activation on the coroutine's resume stack, its program counter past
  the call and its register file as the call found it. That is the activation
  \<open>resumed_state\<close> stands for.
\<close>

lemma called_state_suspends:
  "map_option (\<lambda>out. (thrown_of out, register (state_of out), pc (state_of out),
                        params (state_of out), terminated (state_of out),
                        map_option co_resumeStack (coroutine_running (world (state_of out)))))
     (execute yielding_host 2 0 (called_state\<lparr>world := coroutine_world\<rparr>))
     = Some (None, register resumed_state, pc resumed_state, params resumed_state, False,
             Some [ThisClosure])"
  by (simp add: run_defs called_state_def resumed_state_def coroutine_world_def new_closure_def
      call_add_prototype_def example_world_def example_host_def yielding_host_def
      call_def call_finish_def this_register_def collect_args_def has_apply_def reg_get_def)

text \<open>
  C8 at a concrete input. The prototype is \<^verbatim>\<open>CALL 0 1 2\<close> on line 1 and \<^verbatim>\<open>ADD 1 0 K(0)\<close> on
  line 2 with the constant \<^verbatim>\<open>"hello"\<close>, so its \<^verbatim>\<open>ADD\<close> raises the arithmetic error.

  Entered through \<^verbatim>\<open>execute\<close> with a callee that returns 42, the activation lets the error
  out with the one frame \<^verbatim>\<open>at test.lua on line 2\<close>.

  When instead the callee yields and the coroutine is later resumed with 42, the same
  activation is entered through \<^verbatim>\<open>_run\<close>, as \<^verbatim>\<open>call\<close> and the coroutine do with every
  activation on a resume stack; \<^verbatim>\<open>_run\<close> has no \<^verbatim>\<open>try\<close>. The same error then leaves the
  activation with no source stack and no frame at all.
\<close>

theorem resumed_activation_error_gains_no_frame:
  "map_option thrown_of (execute example_host 2 0 called_state)
     = Some (Some (LuaError \<lparr>message = ''attempt to perform arithmetic on a non-numeric value'',
                              stack = None, luaStack = Some [''at test.lua on line 2'']\<rparr>))
   \<and> map_option thrown_of (run example_host 1 resumed_state)
     = Some (Some (LuaError \<lparr>message = ''attempt to perform arithmetic on a non-numeric value'',
                              stack = None, luaStack = None\<rparr>))"
  by (simp add: run_defs called_state_def resumed_state_def resuming_world_def new_closure_def
      call_add_prototype_def example_world_def example_host_def
      call_def call_finish_def this_register_def collect_args_def splice_results_def
      write_loop_def has_apply_def nth_or_undefined_def
      add_def arith_def RK_def getConstant_def reg_get_def reg_set_def metamethod_def
      set_register_def
      FLOATING_POINT_PATTERN_def Opt_def Plus_def Digit_def digits_def
      lua_error_def catch_error_def push_frame_def frame_text_def line_text_def
      digits_to_string_def show_nat.simps digit_char_def)

text \<open>
  A host exception leaves a resumed activation as it is, not wrapped: the prototype
  \<^verbatim>\<open>CALL 0 1 2\<close>, \<^verbatim>\<open>TAILCALL 0 1\<close> resumed after its call raises the host's \<^verbatim>\<open>TypeError\<close>.
\<close>

lemma resumed_activation_host_exception_unwrapped:
  "map_option thrown_of
     (run example_host 1
        (resumed_state\<lparr>data := call_add_prototype
           \<lparr>instructions := [\<lparr>instr_op = 28, instr_A = 0, instr_B = 1, instr_C = 2\<rparr>,
                             \<lparr>instr_op = 29, instr_A = 0, instr_B = 1, instr_C = 0\<rparr>]\<rparr>\<rparr>))
     = Some (Some (HostException (Str ''TypeError'') Undefined))"
  by (simp add: run_defs called_state_def resumed_state_def resuming_world_def new_closure_def
      call_add_prototype_def example_world_def example_host_def
      tailcall_def call_def this_register_def splice_results_def
      write_loop_def nth_or_undefined_def reg_set_def
      type_error_def host_error_def)

text \<open>
  And inside \<^verbatim>\<open>execute\<close>: when the callee throws \<^verbatim>\<open>null\<close> or \<^verbatim>\<open>undefined\<close>, the \<^verbatim>\<open>catch\<close> block
  reads \<^verbatim>\<open>e.stack\<close> of it, which raises the host's \<^verbatim>\<open>TypeError\<close>; that exception leaves
  \<^verbatim>\<open>execute\<close> in place of a language error, with no frame.
\<close>

lemma execute_null_exception_unwrapped:
  "map_option thrown_of
     (execute (example_host\<lparr>apply_fn := (\<lambda>f args w. (Throws Nullish, w))\<rparr>) 1 0 called_state)
     = Some (Some (HostException (Str ''TypeError'') Undefined))"
  by (simp add: run_defs called_state_def new_closure_def
      call_add_prototype_def example_world_def example_host_def
      call_def call_finish_def this_register_def collect_args_def has_apply_def reg_get_def
      type_error_def host_error_def catch_error_def)

section \<open>Closing of captured locals\<close>

lemma close_cell_simps [simp]:
  "c_open (close_cell cs cid v c) = (c \<noteq> cid \<and> c_open (cs c))"
  "c \<noteq> cid \<Longrightarrow> close_cell cs cid v c = cs c"
  "c_value (close_cell cs cid v cid) = v"
  by (simp_all add: close_cell_def)

lemma has_slot_reg_delete:
  "has_slot (reg_delete R i) j = (j \<noteq> i \<and> has_slot R j)"
  by (auto simp: has_slot_def reg_delete_def nth_list_update)

lemma reg_get_reg_delete: "j \<noteq> i \<Longrightarrow> reg_get (reg_delete R i) j = reg_get R j"
  by (auto simp: reg_get_def reg_delete_def nth_list_update)

lemma close_all_open:
  "c_open (snd (close_all l R cs) c) = (c_open (cs c) \<and> c \<notin> snd ` set l)"
  by (induction l R cs rule: close_all.induct) auto

lemma close_all_slot:
  "has_slot (fst (close_all l R cs)) j = (has_slot R j \<and> j \<notin> fst ` set l)"
  by (induction l R cs rule: close_all.induct) (auto simp: has_slot_reg_delete)

lemma close_all_untouched: "c \<notin> snd ` set l \<Longrightarrow> snd (close_all l R cs) c = cs c"
  by (induction l R cs rule: close_all.induct) auto

lemma close_all_value:
  "distinct (map fst l) \<Longrightarrow> distinct (map snd l) \<Longrightarrow> (ri, cid) \<in> set l \<Longrightarrow>
     c_value (snd (close_all l R cs) cid) = reg_get R ri"
proof (induction l R cs rule: close_all.induct)
  case (1 R cs)
  then show ?case by simp
next
  case (2 registerIndex c rest R cs)
  show ?case
  proof (cases "(ri, cid) = (registerIndex, c)")
    case True
    with 2(3) have "cid \<notin> snd ` set rest" by auto
    with True show ?thesis by (simp add: close_all_untouched)
  next
    case False
    with 2(4) have mem: "(ri, cid) \<in> set rest" by auto
    with 2(2) have "ri \<noteq> registerIndex" by (auto simp: image_iff)
    with 2(1)[OF _ _ mem] 2(2,3) show ?thesis by (simp add: reg_get_reg_delete)
  qed
qed

lemma return_op_result:
  "return_op a b s = Done r s1 \<Longrightarrow>
     localsUsedAsUpvalues s1 = []
     \<and> register s1 = fst (close_all (localsUsedAsUpvalues s) (register s) (cells s))
     \<and> cells s1 = snd (close_all (localsUsedAsUpvalues s) (register s) (cells s))
     \<and> next_cell s1 = next_cell s"
  by (auto simp: return_op_def Let_def split: prod.splits)

lemma return_op_closes:
  assumes "return_op a b s0 = Done r s1"
  shows "localsUsedAsUpvalues s1 = []
     \<and> (\<forall>(ri, cid) \<in> set (localsUsedAsUpvalues s0).
           \<not> c_open (cells s1 cid) \<and> \<not> has_slot (register s1) ri
           \<and> (distinct (map fst (localsUsedAsUpvalues s0))
                \<and> distinct (map snd (localsUsedAsUpvalues s0)) \<longrightarrow>
              c_value (cells s1 cid) = reg_get (register s0) ri))"
proof -
  note r = return_op_result[OF assms]
  have "\<not> c_open (cells s1 cid) \<and> \<not> has_slot (register s1) ri
           \<and> (distinct (map fst (localsUsedAsUpvalues s0))
                \<and> distinct (map snd (localsUsedAsUpvalues s0)) \<longrightarrow>
              c_value (cells s1 cid) = reg_get (register s0) ri)"
    if m: "(ri, cid) \<in> set (localsUsedAsUpvalues s0)" for ri cid
  proof -
    from m have "cid \<in> snd ` set (localsUsedAsUpvalues s0)" "ri \<in> fst ` set (localsUsedAsUpvalues s0)"
      by (auto intro: rev_image_eqI)
    with r m show ?thesis by (simp add: close_all_open close_all_slot close_all_value)
  qed
  with r show ?thesis by auto
qed

lemma open_cells_recorded_updates [simp]:
  "open_cells_recorded (s\<lparr>register := R\<rparr>) = open_cells_recorded s"
  "open_cells_recorded (s\<lparr>pc := p\<rparr>) = open_cells_recorded s"
  "open_cells_recorded (s\<lparr>world := w\<rparr>) = open_cells_recorded s"
  "open_cells_recorded (s\<lparr>terminated := t\<rparr>) = open_cells_recorded s"
  by (simp_all add: open_cells_recorded_def)

lemma set_register_recorded [simp]:
  "open_cells_recorded (set_register s a v) = open_cells_recorded s"
  by (simp add: set_register_def)

lemma skip_if_recorded [simp]:
  "open_cells_recorded (state_of (skip_if c s)) = open_cells_recorded s"
  by (simp add: skip_if_def)

lemma simple_handlers_recorded:
  "open_cells_recorded (state_of (move a b s)) = open_cells_recorded s"
  "open_cells_recorded (state_of (loadk a b s)) = open_cells_recorded s"
  "open_cells_recorded (state_of (loadbool a b c s)) = open_cells_recorded s"
  "open_cells_recorded (state_of (loadnil a b s)) = open_cells_recorded s"
  "open_cells_recorded (state_of (jmp a b s)) = open_cells_recorded s"
  "open_cells_recorded (state_of (test a b c s)) = open_cells_recorded s"
  "open_cells_recorded (state_of (testset a b c s)) = open_cells_recorded s"
  "open_cells_recorded (state_of (vararg a b s)) = open_cells_recorded s"
  by (simp_all add: move_def loadk_def loadbool_def loadnil_def jmp_def test_def testset_def
      vararg_def Let_def)

lemma arith_recorded:
  "open_cells_recorded (state_of (arith h name opr a b c s)) = open_cells_recorded s"
  by (simp add: arith_def Let_def split: option.splits prod.splits sum.splits)

lemma lt_recorded:
  "open_cells_recorded (state_of (lt h a b c s)) = open_cells_recorded s"
  by (simp add: lt_def Let_def split: option.splits prod.splits sum.splits)

lemma call_finish_recorded:
  "open_cells_recorded (state_of (call_finish h this a c rw s)) = open_cells_recorded s"
  by (simp add: call_finish_def Let_def split: option.splits prod.splits call_result.splits)

lemma call_recorded:
  "open_cells_recorded (state_of (call h this a b c s)) = open_cells_recorded s"
  by (simp add: call_def Let_def call_finish_recorded split: option.splits prod.splits resumable.splits)

lemma run_other_recorded:
  "open_cells_recorded (state_of (run_other h i s)) = open_cells_recorded s"
  by (simp add: run_other_def Let_def split: prod.splits option.splits)

lemma close_from_open:
  "close_from a l R cs = (kept, R', cs') \<Longrightarrow>
     c_open (cs' c) \<Longrightarrow> c_open (cs c) \<and> (c \<in> snd ` set l \<longrightarrow> c \<in> snd ` set kept)"
proof (induction a l R cs arbitrary: kept R' cs' rule: close_from.induct)
  case (1 a R cs)
  then show ?case by simp
next
  case (2 a registerIndex cid rest R cs)
  show ?case
  proof (cases "registerIndex \<ge> int a")
    case True
    with 2(3) have "close_from a rest (reg_delete R registerIndex)
        (close_cell cs cid (reg_get R registerIndex)) = (kept, R', cs')" by simp
    from 2(1)[OF True this 2(4)] show ?thesis by auto
  next
    case False
    obtain k2 R2 cs2 where r: "close_from a rest R cs = (k2, R2, cs2)"
      by (cases "close_from a rest R cs") auto
    with False 2(3) have e: "kept = (registerIndex, cid) # k2" "cs' = cs2" by auto
    from 2(2)[OF False r] 2(4) e show ?thesis by auto
  qed
qed

lemma close_recorded:
  "open_cells_recorded s \<Longrightarrow> open_cells_recorded (state_of (close a s))"
proof -
  assume inv: "open_cells_recorded s"
  obtain kept R' cs' where
    r: "close_from a (localsUsedAsUpvalues s) (register s) (cells s) = (kept, R', cs')"
    by (cases "close_from a (localsUsedAsUpvalues s) (register s) (cells s)") auto
  then have st: "state_of (close a s)
      = s\<lparr>register := R', cells := cs', localsUsedAsUpvalues := kept\<rparr>"
    by (simp add: close_def)
  show ?thesis
    unfolding st using inv close_from_open[OF r]
    by (auto simp: open_cells_recorded_def)
qed

lemma return_op_recorded:
  "open_cells_recorded s \<Longrightarrow> return_op a b s = Done r s1 \<Longrightarrow>
     localsUsedAsUpvalues s1 = [] \<and> (\<forall>cid < next_cell s1. \<not> c_open (cells s1 cid))"
  using return_op_result[of a b s r s1]
  by (auto simp: open_cells_recorded_def close_all_open)

lemma new_cell_recorded:
  "open_cells_recorded s \<Longrightarrow>
   open_cells_recorded
     (s\<lparr>cells := (cells s)(next_cell s := c), next_cell := next_cell s + 1,
        localsUsedAsUpvalues := localsUsedAsUpvalues s @ [(b, next_cell s)], pc := p\<rparr>)"
  unfolding open_cells_recorded_def
proof (intro allI impI)
  fix cid
  assume inv: "\<forall>cid<next_cell s. c_open (cells s cid) \<longrightarrow> cid \<in> snd ` set (localsUsedAsUpvalues s)"
  let ?s2 = "s\<lparr>cells := (cells s)(next_cell s := c), next_cell := next_cell s + 1,
        localsUsedAsUpvalues := localsUsedAsUpvalues s @ [(b, next_cell s)], pc := p\<rparr>"
  assume lt: "cid < next_cell ?s2" and op: "c_open (cells ?s2 cid)"
  show "cid \<in> snd ` set (localsUsedAsUpvalues ?s2)"
  proof (cases "cid = next_cell s")
    case True
    then show ?thesis by simp
  next
    case False
    with lt op have "cid < next_cell s" "c_open (cells s cid)" by simp_all
    with inv have "cid \<in> snd ` set (localsUsedAsUpvalues s)" by blast
    then show ?thesis by auto
  qed
qed


lemma bind_upvalues_recorded:
  "open_cells_recorded s \<Longrightarrow>
     open_cells_recorded (case bind_upvalues h bx is ups s of Inl x \<Rightarrow> snd x | Inr y \<Rightarrow> snd y)"
proof (induction h bx "is" ups s rule: bind_upvalues.induct)
  case (1 h bx ups s)
  then show ?case by simp
next
  case (2 h bx i rest ups s)
  note inv = \<open>open_cells_recorded s\<close>
  show ?case
  proof (cases "(instr_op i = 0 \<or> instr_op i = 4) \<and> instr_A i = 0")
    case False
    then have "bind_upvalues h bx (i # rest) ups s = Inr (ups, s)" by auto
    with inv show ?thesis by simp
  next
    case pseudo: True
    show ?thesis
    proof (cases "instr_op i = 0")
      case mv: True
      show ?thesis
      proof (cases "find (\<lambda>up. fst up = instr_B i) (localsUsedAsUpvalues s)")
        case (Some up)
        from inv have "open_cells_recorded (s\<lparr>pc := pc s + 1\<rparr>)" by simp
        from 2(2)[OF pseudo mv Some this] pseudo mv Some show ?thesis by simp
      next
        case None
        show ?thesis
        proof (cases "0 \<le> bx \<and> nat bx < length (nested_functions (data s))")
          case True
          from 2(1)[OF pseudo mv None True refl refl refl new_cell_recorded[OF inv]]
            pseudo mv None True
          show ?thesis by (simp add: Let_def)
        next
          case False
          with pseudo mv None have "bind_upvalues h bx (i # rest) ups s = Inl (type_error h, s)"
            by auto
          with inv show ?thesis by simp
        qed
      qed
    next
      case gu: False
      show ?thesis
      proof (cases "0 \<le> instr_B i \<and> nat (instr_B i) < length (parent_upvalues s)")
        case True
        from inv have "open_cells_recorded (s\<lparr>pc := pc s + 1\<rparr>)" by simp
        from 2(3)[OF pseudo gu True this] pseudo gu True show ?thesis by simp
      next
        case False
        with pseudo gu have "bind_upvalues h bx (i # rest) ups s = Inl (type_error h, s)"
          by auto
        with inv show ?thesis by simp
      qed
    qed
  qed
qed


lemma closure_recorded:
  "open_cells_recorded s \<Longrightarrow> open_cells_recorded (state_of (closure h a bx s))"
proof -
  assume inv: "open_cells_recorded s"
  let ?r = "bind_upvalues h bx
      (if 0 \<le> pc s then drop (nat (pc s)) (instructions (data s)) else []) [] s"
  from bind_upvalues_recorded[OF inv]
  have b: "open_cells_recorded (case ?r of Inl x \<Rightarrow> snd x | Inr y \<Rightarrow> snd y)" .
  show ?thesis
  proof (cases ?r)
    case (Inl x)
    with b show ?thesis by (cases x) (simp add: closure_def)
  next
    case (Inr y)
    with b show ?thesis by (cases y) (simp add: closure_def)
  qed
qed

lemma return_op_recorded_state:
  "open_cells_recorded s \<Longrightarrow> open_cells_recorded (state_of (return_op a b s))"
proof -
  assume inv: "open_cells_recorded s"
  obtain r s1 where d: "return_op a b s = Done r s1"
    by (cases "return_op a b s") (auto simp: return_op_def Let_def split: prod.splits)
  from return_op_recorded[OF inv d] d show ?thesis
    by (simp add: open_cells_recorded_def)
qed

lemma executeInstruction_recorded:
  "open_cells_recorded s \<Longrightarrow> open_cells_recorded (state_of (executeInstruction h i s))"
  by (simp add: executeInstruction_def Let_def simple_handlers_recorded arith_recorded lt_recorded
      call_recorded tailcall_def close_recorded closure_recorded return_op_recorded_state
      run_other_recorded add_def sub_def mul_def div_op_def mod_op_def pow_def)


lemma resume_prologue_recorded:
  "open_cells_recorded (state_of (resume_prologue h s)) = open_cells_recorded s"
  by (simp add: resume_prologue_def Let_def split: option.splits)

lemma run_loop_closes:
  "open_cells_recorded s \<Longrightarrow> \<not> terminated s \<Longrightarrow>
   run_loop h n s = Some (Done (Some retvals) s') \<Longrightarrow> terminated s' \<Longrightarrow>
     localsUsedAsUpvalues s' = [] \<and> (\<forall>cid < next_cell s'. \<not> c_open (cells s' cid))"
proof (induction n arbitrary: s)
  case 0
  then show ?case by simp
next
  case (Suc n)
  note inv = Suc.prems(1) and nt = Suc.prems(2) and run = Suc.prems(3) and t = Suc.prems(4)
  show ?case
  proof (cases "fetch s")
    case None
    with run show ?thesis by simp
  next
    case (Some i)
    let ?s1 = "s\<lparr>pc := pc s + 1\<rparr>"
    from inv have inv1: "open_cells_recorded ?s1" by simp
    have f: "same_frame ?s1 (state_of (executeInstruction h i ?s1))"
      by (rule executeInstruction_frame)
    show ?thesis
    proof (cases "executeInstruction h i ?s1")
      case (Threw e s2)
      with run Some show ?thesis by simp
    next
      case (Done retval s2)
      with f nt have nt2: "\<not> terminated s2" by (simp add: same_frame_def)
      from executeInstruction_recorded[OF inv1, of h i] Done
      have inv2: "open_cells_recorded s2" by simp
      consider (co) co where "coroutine_in Suspending (world s2) = Some co"
        | (dbg) "coroutine_in Suspending (world s2) = None"
                "debug_status (world s2) = Suspending \<and> retval = None"
        | (ret) rv where "coroutine_in Suspending (world s2) = None"
                "\<not> (debug_status (world s2) = Suspending \<and> retval = None)" "retval = Some rv"
        | (loop) "coroutine_in Suspending (world s2) = None"
                "\<not> (debug_status (world s2) = Suspending \<and> retval = None)" "retval = None"
        by (cases "coroutine_in Suspending (world s2)"; cases retval) auto
      then show ?thesis
      proof cases
        case co
        with run Some Done nt2 t show ?thesis
          by (auto simp: Let_def split: if_splits)
      next
        case dbg
        with run Some Done nt2 t show ?thesis by (auto simp: Let_def)
      next
        case ret
        with run Some Done have s': "s' = s2\<lparr>terminated := True\<rparr>" and rv: "rv = retvals"
          by (auto simp: Let_def)
        from Done ret(3) have "returns_value (executeInstruction h i ?s1)" by simp
        from executeInstruction_value[OF this] Done
        have "return_op (instr_A i) (instr_B i) ?s1 = Done retval s2" by simp
        from return_op_recorded[OF inv1 this] s' show ?thesis by simp
      next
        case loop
        with run Some Done have "run_loop h n s2 = Some (Done (Some retvals) s')"
          by (simp add: Let_def)
        from Suc.IH[OF inv2 nt2 this t] show ?thesis .
      qed
    qed
  qed
qed

lemma run_closes:
  assumes "open_cells_recorded s" and "run h fuel s = Some (Done (Some retvals) s')"
    and "terminated s'"
  shows "localsUsedAsUpvalues s' = [] \<and> (\<forall>cid < next_cell s'. \<not> c_open (cells s' cid))"
proof -
  have p: "same_frame (s\<lparr>terminated := False\<rparr>) (state_of (resume_prologue h s))"
    by (rule resume_prologue_frame)
  show ?thesis
  proof (cases "resume_prologue h s")
    case (Threw e s1)
    with assms(2) show ?thesis by (simp add: run_def)
  next
    case (Done x s1)
    with assms(2) have r: "run_loop h fuel s1 = Some (Done (Some retvals) s')"
      by (simp add: run_def)
    from p Done have nt: "\<not> terminated s1" by (simp add: same_frame_def)
    from resume_prologue_recorded[of h s] Done assms(1) have "open_cells_recorded s1" by simp
    from run_loop_closes[OF this nt r assms(3)] show ?thesis .
  qed
qed

text \<open>
  The captured-locals list of a new closure names each register and each cell once, and
  so does that of every state its entry and its run lead to: \<^verbatim>\<open>closure\<close> records a register
  only when the list has no entry for it, with a cell it has just made, and \<^verbatim>\<open>close\<close> and
  \<^verbatim>\<open>return_\<close> only remove entries.
\<close>

lemma captured_once_updates [simp]:
  "captured_once (s\<lparr>register := R\<rparr>) = captured_once s"
  "captured_once (s\<lparr>pc := p\<rparr>) = captured_once s"
  "captured_once (s\<lparr>world := w\<rparr>) = captured_once s"
  "captured_once (s\<lparr>terminated := t\<rparr>) = captured_once s"
  "captured_once (s\<lparr>cells := cs\<rparr>) = captured_once s"
  by (simp_all add: captured_once_def)

lemma set_register_once [simp]: "captured_once (set_register s a v) = captured_once s"
  by (simp add: set_register_def)

lemma skip_if_once [simp]: "captured_once (state_of (skip_if c s)) = captured_once s"
  by (simp add: skip_if_def)

lemma simple_handlers_once:
  "captured_once (state_of (move a b s)) = captured_once s"
  "captured_once (state_of (loadk a b s)) = captured_once s"
  "captured_once (state_of (loadbool a b c s)) = captured_once s"
  "captured_once (state_of (loadnil a b s)) = captured_once s"
  "captured_once (state_of (jmp a b s)) = captured_once s"
  "captured_once (state_of (test a b c s)) = captured_once s"
  "captured_once (state_of (testset a b c s)) = captured_once s"
  "captured_once (state_of (vararg a b s)) = captured_once s"
  by (simp_all add: move_def loadk_def loadbool_def loadnil_def jmp_def test_def testset_def
      vararg_def Let_def)

lemma arith_once: "captured_once (state_of (arith h name opr a b c s)) = captured_once s"
  by (simp add: arith_def Let_def split: option.splits prod.splits sum.splits)

lemma lt_once: "captured_once (state_of (lt h a b c s)) = captured_once s"
  by (simp add: lt_def Let_def split: option.splits prod.splits sum.splits)

lemma call_finish_once:
  "captured_once (state_of (call_finish h this a c rw s)) = captured_once s"
  by (simp add: call_finish_def Let_def split: option.splits prod.splits call_result.splits)

lemma call_once: "captured_once (state_of (call h this a b c s)) = captured_once s"
  by (simp add: call_def Let_def call_finish_once split: option.splits prod.splits resumable.splits)

lemma run_other_once: "captured_once (state_of (run_other h i s)) = captured_once s"
  by (simp add: run_other_def Let_def split: prod.splits option.splits)

lemma close_from_kept:
  "fst (close_from a l R cs) = filter (\<lambda>up. fst up < int a) l"
  by (induction a l R cs rule: close_from.induct) (auto split: prod.splits)

lemma close_once: "captured_once s \<Longrightarrow> captured_once (state_of (close a s))"
proof -
  assume inv: "captured_once s"
  obtain kept R' cs' where
    r: "close_from a (localsUsedAsUpvalues s) (register s) (cells s) = (kept, R', cs')"
    by (cases "close_from a (localsUsedAsUpvalues s) (register s) (cells s)") auto
  with close_from_kept[of a "localsUsedAsUpvalues s" "register s" "cells s"]
  have k: "kept = filter (\<lambda>up. fst up < int a) (localsUsedAsUpvalues s)" by simp
  from r have st: "state_of (close a s)
      = s\<lparr>register := R', cells := cs', localsUsedAsUpvalues := kept\<rparr>"
    by (simp add: close_def)
  show ?thesis
    unfolding st using inv
    by (auto simp: captured_once_def k distinct_map_filter list_all_iff)
qed

lemma return_op_once: "captured_once (state_of (return_op a b s))"
  by (simp add: return_op_def Let_def captured_once_def split: prod.splits)

lemma new_cell_once:
  "captured_once s \<Longrightarrow> find (\<lambda>up. fst up = b) (localsUsedAsUpvalues s) = None \<Longrightarrow>
   captured_once
     (s\<lparr>cells := (cells s)(next_cell s := c), next_cell := next_cell s + 1,
        localsUsedAsUpvalues := localsUsedAsUpvalues s @ [(b, next_cell s)], pc := p\<rparr>)"
  by (fastforce simp: captured_once_def find_None_iff list_all_iff)

lemma bind_upvalues_once:
  "captured_once s \<Longrightarrow>
     captured_once (case bind_upvalues h bx is ups s of Inl x \<Rightarrow> snd x | Inr y \<Rightarrow> snd y)"
proof (induction h bx "is" ups s rule: bind_upvalues.induct)
  case (1 h bx ups s)
  then show ?case by simp
next
  case (2 h bx i rest ups s)
  note inv = \<open>captured_once s\<close>
  show ?case
  proof (cases "(instr_op i = 0 \<or> instr_op i = 4) \<and> instr_A i = 0")
    case False
    then have "bind_upvalues h bx (i # rest) ups s = Inr (ups, s)" by auto
    with inv show ?thesis by simp
  next
    case pseudo: True
    show ?thesis
    proof (cases "instr_op i = 0")
      case mv: True
      show ?thesis
      proof (cases "find (\<lambda>up. fst up = instr_B i) (localsUsedAsUpvalues s)")
        case (Some up)
        from inv have "captured_once (s\<lparr>pc := pc s + 1\<rparr>)" by simp
        from 2(2)[OF pseudo mv Some this] pseudo mv Some show ?thesis by simp
      next
        case None
        show ?thesis
        proof (cases "0 \<le> bx \<and> nat bx < length (nested_functions (data s))")
          case True
          from 2(1)[OF pseudo mv None True refl refl refl new_cell_once[OF inv None]]
            pseudo mv None True
          show ?thesis by (simp add: Let_def)
        next
          case False
          with pseudo mv None have "bind_upvalues h bx (i # rest) ups s = Inl (type_error h, s)"
            by auto
          with inv show ?thesis by simp
        qed
      qed
    next
      case gu: False
      show ?thesis
      proof (cases "0 \<le> instr_B i \<and> nat (instr_B i) < length (parent_upvalues s)")
        case True
        from inv have "captured_once (s\<lparr>pc := pc s + 1\<rparr>)" by simp
        from 2(3)[OF pseudo gu True this] pseudo gu True show ?thesis by simp
      next
        case False
        with pseudo gu have "bind_upvalues h bx (i # rest) ups s = Inl (type_error h, s)"
          by auto
        with inv show ?thesis by simp
      qed
    qed
  qed
qed

lemma closure_once: "captured_once s \<Longrightarrow> captured_once (state_of (closure h a bx s))"
proof -
  assume inv: "captured_once s"
  let ?r = "bind_upvalues h bx
      (if 0 \<le> pc s then drop (nat (pc s)) (instructions (data s)) else []) [] s"
  from bind_upvalues_once[OF inv]
  have b: "captured_once (case ?r of Inl x \<Rightarrow> snd x | Inr y \<Rightarrow> snd y)" .
  show ?thesis
  proof (cases ?r)
    case (Inl x)
    with b show ?thesis by (cases x) (simp add: closure_def)
  next
    case (Inr y)
    with b show ?thesis by (cases y) (simp add: closure_def)
  qed
qed

lemma executeInstruction_once:
  "captured_once s \<Longrightarrow> captured_once (state_of (executeInstruction h i s))"
  by (simp add: executeInstruction_def Let_def simple_handlers_once arith_once lt_once
      call_once tailcall_def close_once closure_once return_op_once
      run_other_once add_def sub_def mul_def div_op_def mod_op_def pow_def)

lemma resume_prologue_once:
  "captured_once (state_of (resume_prologue h s)) = captured_once s"
  by (simp add: resume_prologue_def Let_def split: option.splits)

lemma run_loop_once:
  "captured_once s \<Longrightarrow> run_loop h n s = Some out \<Longrightarrow> captured_once (state_of out)"
proof (induction n arbitrary: s)
  case 0
  then show ?case by simp
next
  case (Suc n)
  show ?case
  proof (cases "fetch s")
    case None
    with Suc.prems show ?thesis by auto
  next
    case (Some i)
    let ?s1 = "s\<lparr>pc := pc s + 1\<rparr>"
    from Suc.prems(1) have "captured_once ?s1" by simp
    from executeInstruction_once[OF this, of h i]
    have inv2: "captured_once (state_of (executeInstruction h i ?s1))" .
    show ?thesis
    proof (cases "executeInstruction h i ?s1")
      case (Threw e s2)
      with Suc.prems Some inv2 show ?thesis by auto
    next
      case (Done retval s2)
      with inv2 have i2: "captured_once s2" by simp
      consider (co) co where "coroutine_in Suspending (world s2) = Some co"
        | (dbg) "coroutine_in Suspending (world s2) = None"
                "debug_status (world s2) = Suspending \<and> retval = None"
        | (ret) rv where "coroutine_in Suspending (world s2) = None"
                "\<not> (debug_status (world s2) = Suspending \<and> retval = None)" "retval = Some rv"
        | (loop) "coroutine_in Suspending (world s2) = None"
                "\<not> (debug_status (world s2) = Suspending \<and> retval = None)" "retval = None"
        by (cases "coroutine_in Suspending (world s2)"; cases retval) auto
      then show ?thesis
      proof cases
        case co
        with Suc.prems Some Done i2 show ?thesis by (auto simp: Let_def split: if_splits)
      next
        case dbg
        with Suc.prems Some Done i2 show ?thesis by (auto simp: Let_def)
      next
        case ret
        with Suc.prems Some Done i2 show ?thesis by (auto simp: Let_def)
      next
        case loop
        with Suc.prems Some Done have "run_loop h n s2 = Some out" by (simp add: Let_def)
        from Suc.IH[OF i2 this] show ?thesis .
      qed
    qed
  qed
qed

lemma run_once: "captured_once s \<Longrightarrow> run h fuel s = Some out \<Longrightarrow> captured_once (state_of out)"
proof -
  assume inv: "captured_once s" and r: "run h fuel s = Some out"
  show ?thesis
  proof (cases "resume_prologue h s")
    case (Threw e s1)
    with r resume_prologue_once[of h s] inv show ?thesis by (auto simp: run_def)
  next
    case (Done x s1)
    with r have "run_loop h fuel s1 = Some out" by (simp add: run_def)
    moreover from resume_prologue_once[of h s] Done inv have "captured_once s1" by simp
    ultimately show ?thesis by (rule run_loop_once[rotated])
  qed
qed

lemma new_closure_once: "captured_once (new_closure d ups w)"
  by (simp add: captured_once_def new_closure_def)

lemma enter_once: "captured_once (enter args s) = captured_once s"
  by (simp add: captured_once_def enter_def Let_def)

lemma execute_once:
  "captured_once s \<Longrightarrow> execute h fuel args s = Some out \<Longrightarrow> captured_once (state_of out)"
  using run_once[of "enter args s" h fuel]
  by (auto simp: execute_def enter_once split: option.splits outcome.splits)

lemma new_closure_recorded: "open_cells_recorded (new_closure d ups w)"
  by (simp add: open_cells_recorded_def new_closure_def)

lemma enter_recorded: "open_cells_recorded (enter args s) = open_cells_recorded s"
  by (simp add: open_cells_recorded_def enter_def Let_def)

lemma return_state_runs:
  "\<exists>retvals s'. run example_host 3 return_state = Some (Done (Some retvals) s')
      \<and> terminated s' \<and> 0 < next_cell s'"
  by (simp add: return_state_def run_defs numeral_3_eq_3 new_closure_def return_prototype_def
      example_world_def example_host_def closure_def return_op_def set_register_def reg_set_def
      reg_get_def)

text \<open>
  C5, as stated, at a concrete input: the capturing prototype has no \<^verbatim>\<open>RETURN\<close>. Its run
  leaves the instruction list after the \<^verbatim>\<open>CLOSURE\<close>, and \<^verbatim>\<open>_run\<close> sets the terminated flag;
  the captured-locals list still holds the entry for register 0, its cell is still open
  and the register slot is still there.
\<close>

theorem run_off_end_leaves_open_cell:
  "capture_run = Some (Done None (state_of (the capture_run)))
   \<and> terminated (state_of (the capture_run))
   \<and> localsUsedAsUpvalues (state_of (the capture_run)) = [(0, 0)]
   \<and> c_open (cells (state_of (the capture_run)) 0)
   \<and> has_slot (register (state_of (the capture_run))) 0"
  by (simp add: capture_run_def run_defs new_closure_def capture_prototype_def
      example_world_def example_host_def closure_def set_register_def reg_set_def has_slot_def)

text \<open>
  C5, amended: for every activation that has terminated by executing \<^verbatim>\<open>RETURN\<close> (its run
  returned a result vector and set the terminated flag), the captured-locals list is
  empty and every cell the activation has made and recorded is closed. And whenever
  \<^verbatim>\<open>RETURN\<close> executes, every cell on the captured-locals list becomes closed, its register
  slot is deleted, the list becomes empty, and (the list naming each register and each
  cell once) the cell holds the value its register had when \<^verbatim>\<open>RETURN\<close> began.
\<close>

theorem return_closes_captured_locals:
  "(open_cells_recorded s \<and> run h fuel s = Some (Done (Some retvals) s') \<and> terminated s' \<longrightarrow>
      localsUsedAsUpvalues s' = [] \<and> (\<forall>cid < next_cell s'. \<not> c_open (cells s' cid)))
   \<and> (return_op a b s0 = Done r s1 \<longrightarrow>
      localsUsedAsUpvalues s1 = []
      \<and> (\<forall>(ri, cid) \<in> set (localsUsedAsUpvalues s0).
            \<not> c_open (cells s1 cid) \<and> \<not> has_slot (register s1) ri
            \<and> (distinct (map fst (localsUsedAsUpvalues s0))
                 \<and> distinct (map snd (localsUsedAsUpvalues s0)) \<longrightarrow>
               c_value (cells s1 cid) = reg_get (register s0) ri)))"
  using run_closes return_op_closes by blast

theorem return_closes_captured_locals_witness:
  "open_cells_recorded return_state
   \<and> (\<exists>retvals s'. run example_host 3 return_state = Some (Done (Some retvals) s')
         \<and> terminated s' \<and> 0 < next_cell s'
         \<and> localsUsedAsUpvalues s' = [] \<and> \<not> c_open (cells s' 0))
   \<and> (\<exists>r s1. return_op 1 2 captured_state = Done r s1
         \<and> (0, 0) \<in> set (localsUsedAsUpvalues captured_state)
         \<and> distinct (map fst (localsUsedAsUpvalues captured_state))
         \<and> distinct (map snd (localsUsedAsUpvalues captured_state))
         \<and> localsUsedAsUpvalues s1 = []
         \<and> \<not> c_open (cells s1 0) \<and> \<not> has_slot (register s1) 0
         \<and> c_value (cells s1 0) = Num (Finite False 1 2))"
proof (intro conjI)
  show inv: "open_cells_recorded return_state"
    by (simp add: open_cells_recorded_def return_state_def enter_def Let_def new_closure_def)
  from return_state_runs obtain retvals s' where
    r: "run example_host 3 return_state = Some (Done (Some retvals) s')"
    and t: "terminated s'" and n: "0 < next_cell s'" by blast
  from return_closes_captured_locals[THEN conjunct1, rule_format, of return_state example_host 3
      retvals s'] inv r t
  have "localsUsedAsUpvalues s' = []" "\<forall>cid < next_cell s'. \<not> c_open (cells s' cid)"
    by simp_all
  with n have "localsUsedAsUpvalues s' = []" "\<not> c_open (cells s' 0)" by simp_all
  with r t n show "\<exists>retvals s'. run example_host 3 return_state = Some (Done (Some retvals) s')
         \<and> terminated s' \<and> 0 < next_cell s'
         \<and> localsUsedAsUpvalues s' = [] \<and> \<not> c_open (cells s' 0)"
    by blast
next
  have l: "localsUsedAsUpvalues captured_state = [(0, 0)]"
    "reg_get (register captured_state) 0 = Num (Finite False 1 2)"
    by (simp_all add: captured_state_def reg_get_def)
  obtain r s1 where d: "return_op 1 2 captured_state = Done r s1"
    by (cases "return_op 1 2 captured_state") (auto simp: return_op_def Let_def split: prod.splits)
  from return_closes_captured_locals[THEN conjunct2, rule_format, OF d]
  have "localsUsedAsUpvalues s1 = []"
    "\<forall>(ri, cid) \<in> set (localsUsedAsUpvalues captured_state).
            \<not> c_open (cells s1 cid) \<and> \<not> has_slot (register s1) ri
            \<and> (distinct (map fst (localsUsedAsUpvalues captured_state))
                 \<and> distinct (map snd (localsUsedAsUpvalues captured_state)) \<longrightarrow>
               c_value (cells s1 cid) = reg_get (register captured_state) ri)"
    by simp_all
  with l have "localsUsedAsUpvalues s1 = []" "\<not> c_open (cells s1 0)"
    "\<not> has_slot (register s1) 0" "c_value (cells s1 0) = Num (Finite False 1 2)"
    by simp_all
  with d l show "\<exists>r s1. return_op 1 2 captured_state = Done r s1
         \<and> (0, 0) \<in> set (localsUsedAsUpvalues captured_state)
         \<and> distinct (map fst (localsUsedAsUpvalues captured_state))
         \<and> distinct (map snd (localsUsedAsUpvalues captured_state))
         \<and> localsUsedAsUpvalues s1 = []
         \<and> \<not> c_open (cells s1 0) \<and> \<not> has_slot (register s1) 0
         \<and> c_value (cells s1 0) = Num (Finite False 1 2)"
    by simp
qed


end
